theory Spec2Isabelle
  imports Complex_Main "HOL-Library.AList"
begin

section \<open>Data model (src/types.ts, src/services/pharmacyService.ts)\<close>

text \<open>
  Identifiers are \<open>int\<close>; stored prices and coordinates are \<open>real\<close>, the values of the
  doubles that \<open>JSON.parse\<close> returns. Strings are \<open>string\<close>.
  Record fields keep the names of the TypeScript interfaces, except \<open>id\<close>, which is
  \<open>id_no\<close> here, and the fields of \<open>StockEntry\<close>, \<open>InventoryItem\<close> and \<open>PharmacyOwner\<close>,
  which carry a prefix so that they do not hide the fields of \<open>Pharmacy\<close>.
\<close>

datatype StockStatus = Available | Unavailable

text \<open>A number the engine computes: the distance of a pharmacy and its score can be
  \<open>NaN\<close>, which \<open>haversineDistance\<close> returns when rounding makes \<open>a\<close> exceed 1 (two nearly
  antipodal points) or a coordinate is missing.\<close>

datatype number = NaN | Num real

text \<open>\<open>interface Location { lat; lon }\<close>. A pharmacy is passed where a \<open>Location\<close> is
  expected, so the pharmacy records extend it.\<close>

record Location =
  lat :: real
  lon :: real

text \<open>\<open>BasePharmacy = Omit<Pharmacy, 'distance' | 'price' | 'priceUnit' | 'stock' |
  'isBestOption' | 'alternative'>\<close>: the stored part of a pharmacy.\<close>

record BasePharmacy = Location +
  id_no :: int
  name :: string
  address :: string
  phone :: string

text \<open>\<open>Omit<Pharmacy, 'isBestOption'>\<close>, the element type of \<open>allPharmaciesWithDetails\<close>.\<close>

record PharmacyDetails = BasePharmacy +
  distance :: number
  price :: real
  priceUnit :: string
  stock :: StockStatus

text \<open>\<open>interface Pharmacy\<close>; the optional field \<open>alternative\<close> is never set by the service
  and is left out.\<close>

record Pharmacy = PharmacyDetails +
  isBestOption :: bool

text \<open>An element of a \<open>GlobalInventory\<close> collection: \<open>{ pharmacyId, price, stock }\<close>.\<close>

record StockEntry =
  pharmacyId :: int
  entryPrice :: real
  entryStock :: StockStatus

text \<open>\<open>interface InventoryItem\<close>. The code reads \<open>item.stock || StockStatus.Available\<close>,
  so a missing \<open>stock\<close> is a possible input: the field is optional here.\<close>

record InventoryItem =
  medicineName :: string
  itemPrice :: real
  itemStock :: "StockStatus option"

record PharmacyOwner =
  ownerName :: string
  ownerPhone :: string
  ownerAddress :: string

text \<open>\<open>interface GlobalInventory { [medicineName: string]: {...}[] }\<close>: an object used as a
  dictionary. Keys are assumed not to be names of members of \<open>Object.prototype\<close>.\<close>

type_synonym GlobalInventory = "string \<rightharpoonup> StockEntry list"

record AppDatabase =
  globalInventory :: GlobalInventory
  dynamicPharmacies :: "BasePharmacy list"

text \<open>The value \<open>getDb\<close> returns when nothing is stored or parsing fails.\<close>

definition emptyDb :: AppDatabase where
  "emptyDb = \<lparr>globalInventory = Map.empty, dynamicPharmacies = []\<rparr>"

text \<open>
  \<open>getDb\<close> and \<open>saveDb\<close> read and write the whole database under one key of
  \<open>localStorage\<close>. Every service function is modelled as a function from the stored
  database to the stored database afterwards (and the value it returns); a function that
  does not call \<open>saveDb\<close> on some path returns the database it was given on that path.
  A failing write to \<open>localStorage\<close> is not modelled.
\<close>

section \<open>JavaScript library functions\<close>

text \<open>\<open>String.prototype.toLowerCase\<close>, on the ASCII letters; other characters are kept.\<close>

definition lower_char :: "char \<Rightarrow> char" where
  "lower_char c =
     (let n = (of_char c :: nat) in if 65 \<le> n \<and> n \<le> 90 then char_of (n + 32) else c)"

definition toLowerCase :: "string \<Rightarrow> string" where
  "toLowerCase s = map lower_char s"

text \<open>\<open>Array.prototype.findIndex\<close>; \<open>None\<close> stands for the result \<open>-1\<close>.\<close>

fun findIndex :: "('a \<Rightarrow> bool) \<Rightarrow> 'a list \<Rightarrow> nat option" where
  "findIndex P [] = None"
| "findIndex P (x # xs) = (if P x then Some 0 else map_option Suc (findIndex P xs))"

section \<open>Inventory index operations\<close>

text \<open>\<open>globalInventory[medicineKey] || []\<close>: the collection of a key, empty when the key
  is absent.\<close>

definition collection :: "GlobalInventory \<Rightarrow> string \<Rightarrow> StockEntry list" where
  "collection gi medicineKey = (case gi medicineKey of None \<Rightarrow> [] | Some es \<Rightarrow> es)"

text \<open>Lines 64 to 72 of \<open>updateGlobalInventory\<close>: the entry of the pharmacy is overwritten
  where \<open>findIndex\<close> finds it, and pushed otherwise.\<close>

definition upsertEntry :: "int \<Rightarrow> real \<Rightarrow> StockStatus \<Rightarrow> StockEntry list \<Rightarrow> StockEntry list" where
  "upsertEntry pid pr st entries =
     (case findIndex (\<lambda>p. pharmacyId p = pid) entries of
        Some i \<Rightarrow> entries[i := (entries ! i)\<lparr>entryPrice := pr, entryStock := st\<rparr>]
      | None \<Rightarrow> entries @ [\<lparr>pharmacyId = pid, entryPrice = pr, entryStock = st\<rparr>])"

text \<open>The body of the \<open>forEach\<close> callback in \<open>updateGlobalInventory\<close>; an absent key
  starts from the empty collection.\<close>

definition upsertItem :: "int \<Rightarrow> InventoryItem \<Rightarrow> GlobalInventory \<Rightarrow> GlobalInventory" where
  "upsertItem pid item gi =
     (let medicineKey = toLowerCase (medicineName item);
          st = (case itemStock item of None \<Rightarrow> Available | Some s \<Rightarrow> s)
      in gi(medicineKey \<mapsto> upsertEntry pid (itemPrice item) st (collection gi medicineKey)))"

definition updateGlobalInventory :: "int \<Rightarrow> InventoryItem list \<Rightarrow> AppDatabase \<Rightarrow> AppDatabase" where
  "updateGlobalInventory pid items db =
     db\<lparr>globalInventory := fold (upsertItem pid) items (globalInventory db)\<rparr>"

definition updateStockStatusInGlobalInventory ::
    "int \<Rightarrow> string \<Rightarrow> StockStatus \<Rightarrow> AppDatabase \<Rightarrow> AppDatabase" where
  "updateStockStatusInGlobalInventory pid medicine st db =
     (let medicineKey = toLowerCase medicine in
      case globalInventory db medicineKey of
        None \<Rightarrow> db
      | Some entries \<Rightarrow>
          (case findIndex (\<lambda>p. pharmacyId p = pid) entries of
             None \<Rightarrow> db
           | Some i \<Rightarrow>
               db\<lparr>globalInventory :=
                    (globalInventory db)(medicineKey \<mapsto>
                       entries[i := (entries ! i)\<lparr>entryStock := st\<rparr>])\<rparr>))"

definition deleteFromGlobalInventory :: "int \<Rightarrow> string \<Rightarrow> AppDatabase \<Rightarrow> AppDatabase" where
  "deleteFromGlobalInventory pid medicine db =
     (let medicineKey = toLowerCase medicine in
      case globalInventory db medicineKey of
        None \<Rightarrow> db
      | Some entries \<Rightarrow>
          (let kept = filter (\<lambda>p. pharmacyId p \<noteq> pid) entries in
           if length kept = 0
           then db\<lparr>globalInventory := (globalInventory db)(medicineKey := None)\<rparr>
           else db\<lparr>globalInventory := (globalInventory db)(medicineKey \<mapsto> kept)\<rparr>))"

text \<open>\<open>checkMedicineLocally\<close> (the delay before the read is not modelled).\<close>

definition checkMedicineLocally :: "string \<Rightarrow> AppDatabase \<Rightarrow> bool" where
  "checkMedicineLocally medicine db =
     (case globalInventory db (toLowerCase medicine) of
        None \<Rightarrow> False
      | Some entries \<Rightarrow> length entries > 0)"

definition getMedicineDetailsForPharmacy ::
    "int \<Rightarrow> string \<Rightarrow> AppDatabase \<Rightarrow> (real \<times> StockStatus) option" where
  "getMedicineDetailsForPharmacy pid medicine db =
     (case globalInventory db (toLowerCase medicine) of
        None \<Rightarrow> None
      | Some inventoryEntry \<Rightarrow>
          (case find (\<lambda>p. pharmacyId p = pid) inventoryEntry of
             None \<Rightarrow> None
           | Some pharmacyData \<Rightarrow> Some (entryPrice pharmacyData, entryStock pharmacyData)))"

section \<open>Pharmacy registry\<close>

text \<open>The list of pre-seeded pharmacies is empty in the source.\<close>

definition VERIFIED_PHARMACIES_IN_BANGALORE :: "BasePharmacy list" where
  "VERIFIED_PHARMACIES_IN_BANGALORE = []"

definition allPharmacies :: "AppDatabase \<Rightarrow> BasePharmacy list" where
  "allPharmacies db = VERIFIED_PHARMACIES_IN_BANGALORE @ dynamicPharmacies db"

text \<open>\<open>registerOrGetPharmacy\<close> returns the stored database afterwards and the pharmacy.
  \<open>Math.max(...ids, 1000)\<close> is the maximum of the ids and 1000.\<close>

definition registerOrGetPharmacy ::
    "PharmacyOwner \<Rightarrow> Location \<Rightarrow> AppDatabase \<Rightarrow> AppDatabase \<times> BasePharmacy" where
  "registerOrGetPharmacy details location db =
     (case find (\<lambda>p. toLowerCase (name p) = toLowerCase (ownerName details)) (allPharmacies db) of
        Some existingPharmacy \<Rightarrow> (db, existingPharmacy)
      | None \<Rightarrow>
          (let maxId = Max (set (map id_no (allPharmacies db) @ [1000]));
               newPharmacy = \<lparr>lat = lat location, lon = lon location, id_no = maxId + 1,
                              name = ownerName details, address = ownerAddress details,
                              phone = ownerPhone details\<rparr>
           in (db\<lparr>dynamicPharmacies := dynamicPharmacies db @ [newPharmacy]\<rparr>, newPharmacy)))"

text \<open>\<open>Array.prototype.sort\<close> with a comparison function, as a stable insertion sort: an
  element moves in front of the elements it compares less than or equal to, and a
  comparison that is \<open>NaN\<close> counts as 0. Where the comparison function is not a consistent
  order the language leaves the order to the implementation; the general results below
  state an order only for distances without \<open>NaN\<close>, where the comparison is consistent.\<close>

fun insertBy :: "('a \<Rightarrow> 'a \<Rightarrow> int) \<Rightarrow> 'a \<Rightarrow> 'a list \<Rightarrow> 'a list" where
  "insertBy cmp x [] = [x]"
| "insertBy cmp x (y # ys) = (if cmp x y \<le> 0 then x # y # ys else y # insertBy cmp x ys)"

definition sortBy :: "('a \<Rightarrow> 'a \<Rightarrow> int) \<Rightarrow> 'a list \<Rightarrow> 'a list" where
  "sortBy cmp xs = foldr (insertBy cmp) xs []"



section \<open>Nearby-match engine\<close>

text \<open>\<open>Math.atan2(y, x)\<close> over the reals.\<close>

definition atan2 :: "real \<Rightarrow> real \<Rightarrow> real" where
  "atan2 y x =
     (if 0 < x then arctan (y / x)
      else if x < 0 then (if 0 \<le> y then arctan (y / x) + pi else arctan (y / x) - pi)
      else if 0 < y then pi / 2
      else if y < 0 then - (pi / 2)
      else 0)"

text \<open>\<open>haversineDistance\<close> as the formula reads over the reals. The source computes it in
  doubles, where rounding can make \<open>a\<close> exceed 1 and \<open>Math.sqrt(1 - a)\<close>, and with it the
  result, \<open>NaN\<close>. The engine below therefore takes the distance function as a parameter
  \<open>hav\<close> with values in \<open>number\<close>, and every result about the engine holds for whatever
  that function returns.\<close>

definition haversineDistance :: "Location \<Rightarrow> Location \<Rightarrow> real" where
  "haversineDistance loc1 loc2 =
     (let R = 6371;
          dLat = (lat loc2 - lat loc1) * pi / 180;
          dLon = (lon loc2 - lon loc1) * pi / 180;
          a = sin (dLat / 2) * sin (dLat / 2) +
              cos (lat loc1 * pi / 180) * cos (lat loc2 * pi / 180) *
              sin (dLon / 2) * sin (dLon / 2);
          c = 2 * atan2 (sqrt a) (sqrt (1 - a))
      in R * c)"

text \<open>\<open>parseFloat(x.toFixed(1))\<close>: the nearest multiple of one tenth, a tie going away
  from zero; \<open>NaN.toFixed(1)\<close> is the string \<open>NaN\<close>, which \<open>parseFloat\<close> reads as \<open>NaN\<close>.
  The result is kept as the decimal that \<open>toFixed\<close> prints.\<close>

fun toFixed1 :: "number \<Rightarrow> number" where
  "toFixed1 NaN = NaN"
| "toFixed1 (Num x) =
     Num (if x < 0 then - (of_int (round (- x * 10)) / 10) else of_int (round (x * 10)) / 10)"

text \<open>\<open>a < b\<close> on numbers: false when either is \<open>NaN\<close>.\<close>

fun jsLess :: "number \<Rightarrow> number \<Rightarrow> bool" where
  "jsLess (Num a) (Num b) = (a < b)"
| "jsLess a b = False"

text \<open>Both numbers are not \<open>NaN\<close> and the first is at most the second.\<close>

fun numLeq :: "number \<Rightarrow> number \<Rightarrow> bool" where
  "numLeq (Num a) (Num b) = (a \<le> b)"
| "numLeq a b = False"

text \<open>
  The callback of \<open>allBasePharmacies.map\<close>, with the distance function \<open>hav\<close> as a
  parameter. \<open>new Map(pairs)\<close> keeps the last pair of a key, so the lookup goes through
  the reversed list. \<open>priceMap.get(id)!\<close> and \<open>stockMap.get(id)!\<close> are read only when
  \<open>stockedPharmacyIds\<close> has the id, where both maps have it too.
\<close>

definition withDetails ::
    "(Location \<Rightarrow> Location \<Rightarrow> number) \<Rightarrow> Location \<Rightarrow> StockEntry list \<Rightarrow> BasePharmacy
       \<Rightarrow> PharmacyDetails" where
  "withDetails hav userLocation pharmaciesWithStock pharmacy =
     (let stockedPharmacyIds = set (map pharmacyId pharmaciesWithStock);
          priceMap = map_of (rev (map (\<lambda>p. (pharmacyId p, entryPrice p)) pharmaciesWithStock));
          stockMap = map_of (rev (map (\<lambda>p. (pharmacyId p, entryStock p)) pharmaciesWithStock));
          dist = toFixed1 (hav userLocation (Location.truncate pharmacy));
          hasEntry = (id_no pharmacy \<in> stockedPharmacyIds)
      in \<lparr>lat = lat pharmacy, lon = lon pharmacy, id_no = id_no pharmacy, name = name pharmacy,
          address = address pharmacy, phone = phone pharmacy,
          distance = dist,
          price = (if hasEntry then the (priceMap (id_no pharmacy)) else 0),
          priceUnit = (if hasEntry then ''per strip'' else ''-''),
          stock = (if hasEntry then the (stockMap (id_no pharmacy)) else Unavailable)\<rparr>)"

definition pharmaciesWithStock :: "string \<Rightarrow> AppDatabase \<Rightarrow> StockEntry list" where
  "pharmaciesWithStock medicine db = collection (globalInventory db) (toLowerCase medicine)"

definition allPharmaciesWithDetails ::
    "(Location \<Rightarrow> Location \<Rightarrow> number) \<Rightarrow> Location \<Rightarrow> string \<Rightarrow> AppDatabase
       \<Rightarrow> PharmacyDetails list" where
  "allPharmaciesWithDetails hav userLocation medicine db =
     map (withDetails hav userLocation (pharmaciesWithStock medicine db)) (allPharmacies db)"

text \<open>\<open>p => ({ ...p, isBestOption: false })\<close>\<close>

definition notBest :: "PharmacyDetails \<Rightarrow> Pharmacy" where
  "notBest p = PharmacyDetails.extend p (Pharmacy.fields False)"

definition availablePharmacies ::
    "(Location \<Rightarrow> Location \<Rightarrow> number) \<Rightarrow> Location \<Rightarrow> string \<Rightarrow> AppDatabase \<Rightarrow> Pharmacy list" where
  "availablePharmacies hav userLocation medicine db =
     map notBest (filter (\<lambda>p. stock p = Available)
                    (allPharmaciesWithDetails hav userLocation medicine db))"

text \<open>The comparison function \<open>(a, b) => a.distance - b.distance\<close> as \<open>sort\<close> reads it:
  the sign of the difference of the two doubles, and 0 when the difference is \<open>NaN\<close>.\<close>

definition compareDistance :: "Pharmacy \<Rightarrow> Pharmacy \<Rightarrow> int" where
  "compareDistance a b =
     (case distance a of
        NaN \<Rightarrow> 0
      | Num x \<Rightarrow>
          (case distance b of
             NaN \<Rightarrow> 0
           | Num y \<Rightarrow> (if x < y then - 1 else if y < x then 1 else 0)))"

text \<open>The unavailable pharmacies after \<open>sort((a, b) => a.distance - b.distance)\<close>.\<close>

definition unavailablePharmacies ::
    "(Location \<Rightarrow> Location \<Rightarrow> number) \<Rightarrow> Location \<Rightarrow> string \<Rightarrow> AppDatabase \<Rightarrow> Pharmacy list" where
  "unavailablePharmacies hav userLocation medicine db =
     sortBy compareDistance
       (map notBest (filter (\<lambda>p. stock p \<noteq> Available)
                       (allPharmaciesWithDetails hav userLocation medicine db)))"

text \<open>Step 3 of \<open>findNearbyPharmacies\<close>: all available pharmacies, and the nearest
  unavailable ones up to a total of \<open>MAX_RESULTS\<close>.\<close>

definition MAX_RESULTS :: int where
  "MAX_RESULTS = 15"

definition combine :: "Pharmacy list \<Rightarrow> Pharmacy list \<Rightarrow> Pharmacy list" where
  "combine available unavailable =
     (let neededUnavailable = MAX_RESULTS - int (length available)
      in if neededUnavailable > 0
         then available @ take (nat neededUnavailable) unavailable
         else available)"

text \<open>\<open>Array.prototype.reduce\<close> without an initial value; it throws on an empty array.\<close>

fun reduce :: "('a \<Rightarrow> 'a \<Rightarrow> 'a) \<Rightarrow> 'a list \<Rightarrow> 'a option" where
  "reduce f [] = None"
| "reduce f (x # xs) = Some (foldl f x xs)"

text \<open>
  Step 4. \<open>(p.distance * 10) + p.price\<close> in double arithmetic: \<open>fl\<close> rounds a real to the
  nearest double and is a parameter. The distance is read as the double of its decimal,
  the product and the sum are rounded, and a \<open>NaN\<close> distance gives a \<open>NaN\<close> score. The
  callback of \<open>reduce\<close> keeps the current best unless \<open>currentScore < bestScore\<close>.
\<close>

definition score :: "(real \<Rightarrow> real) \<Rightarrow> Pharmacy \<Rightarrow> number" where
  "score fl p =
     (case distance p of
        NaN \<Rightarrow> NaN
      | Num d \<Rightarrow> Num (fl (fl (fl d * 10) + fl (price p))))"

definition better :: "(real \<Rightarrow> real) \<Rightarrow> Pharmacy \<Rightarrow> Pharmacy \<Rightarrow> Pharmacy" where
  "better fl best current =
     (if jsLess (score fl current) (score fl best) then current else best)"

definition bestOption :: "(real \<Rightarrow> real) \<Rightarrow> Pharmacy list \<Rightarrow> Pharmacy option" where
  "bestOption fl available =
     (if length available > 0 then reduce (better fl) available else None)"

text \<open>The best option is marked in the combined list at the index \<open>findIndex\<close> returns
  for its id.\<close>

definition markBest :: "Pharmacy option \<Rightarrow> Pharmacy list \<Rightarrow> Pharmacy list" where
  "markBest best combinedResults =
     (case best of
        None \<Rightarrow> combinedResults
      | Some b \<Rightarrow>
          (case findIndex (\<lambda>p. id_no p = id_no b) combinedResults of
             None \<Rightarrow> combinedResults
           | Some i \<Rightarrow> combinedResults[i := (combinedResults ! i)\<lparr>isBestOption := True\<rparr>]))"

text \<open>\<open>findNearbyPharmacies\<close> (the simulated network delay is not modelled).\<close>

definition findNearbyPharmacies ::
    "(real \<Rightarrow> real) \<Rightarrow> (Location \<Rightarrow> Location \<Rightarrow> number) \<Rightarrow> Location \<Rightarrow> string
       \<Rightarrow> AppDatabase \<Rightarrow> Pharmacy list" where
  "findNearbyPharmacies fl hav userLocation medicine db =
     (let available = availablePharmacies hav userLocation medicine db;
          unavailable = unavailablePharmacies hav userLocation medicine db;
          combinedResults = combine available unavailable
      in markBest (bestOption fl available) combinedResults)"

section \<open>Reachable states and invariants\<close>

text \<open>The databases the service can store, starting from the empty one.\<close>

inductive reachable :: "AppDatabase \<Rightarrow> bool" where
  init: "reachable emptyDb"
| register: "reachable db \<Longrightarrow> reachable (fst (registerOrGetPharmacy details location db))"
| upsert: "reachable db \<Longrightarrow> reachable (updateGlobalInventory pid items db)"
| status: "reachable db \<Longrightarrow> reachable (updateStockStatusInGlobalInventory pid medicine st db)"
| delete: "reachable db \<Longrightarrow> reachable (deleteFromGlobalInventory pid medicine db)"

text \<open>The invariant of the inventory index: a key that is present has a non-empty
  collection with at most one entry for each pharmacy.\<close>

definition indexWellFormed :: "GlobalInventory \<Rightarrow> bool" where
  "indexWellFormed gi =
     (\<forall>k es. gi k = Some es \<longrightarrow> es \<noteq> [] \<and> distinct (map pharmacyId es))"

text \<open>The invariant of the registry: ids grow in the order of registration and lie above
  the baseline 1000, and no two pharmacies have names that are equal after case folding.\<close>

definition registryInv :: "AppDatabase \<Rightarrow> bool" where
  "registryInv db \<longleftrightarrow>
     sorted_wrt (<) (map id_no (dynamicPharmacies db)) \<and>
     (\<forall>p\<in>set (dynamicPharmacies db). 1000 < id_no p) \<and>
     distinct (map (\<lambda>p. toLowerCase (name p)) (dynamicPharmacies db))"

text \<open>What a batch of \<open>updateGlobalInventory\<close> for pharmacy \<open>pid\<close> may do to one collection:
  entries are kept in place with their pharmacy ids, entries of other pharmacies are kept
  as they are, and whatever is appended belongs to \<open>pid\<close>.\<close>

definition touchesOnly :: "int \<Rightarrow> StockEntry list \<Rightarrow> StockEntry list \<Rightarrow> bool" where
  "touchesOnly pid es es' \<longleftrightarrow>
     length es \<le> length es' \<and>
     (\<forall>j<length es. pharmacyId (es' ! j) = pharmacyId (es ! j) \<and>
                     (pharmacyId (es ! j) \<noteq> pid \<longrightarrow> es' ! j = es ! j)) \<and>
     (\<forall>j. length es \<le> j \<and> j < length es' \<longrightarrow> pharmacyId (es' ! j) = pid)"

section \<open>Example data\<close>

definition exampleEntries :: "StockEntry list" where
  "exampleEntries =
     [\<lparr>pharmacyId = 1001, entryPrice = 50, entryStock = Available\<rparr>,
      \<lparr>pharmacyId = 1002, entryPrice = 65, entryStock = Available\<rparr>]"

definition exampleIndex :: GlobalInventory where
  "exampleIndex =
     [''dolo'' \<mapsto> exampleEntries,
      ''crocin'' \<mapsto> [\<lparr>pharmacyId = 1001, entryPrice = 20, entryStock = Unavailable\<rparr>]]"

definition exampleDb :: AppDatabase where
  "exampleDb =
     \<lparr>globalInventory = exampleIndex,
      dynamicPharmacies =
        [\<lparr>lat = 2, lon = 0, id_no = 1001, name = ''Apollo'', address = ''MG Road'', phone = ''0801''\<rparr>,
         \<lparr>lat = 1, lon = 0, id_no = 1002, name = ''MedPlus'', address = ''HSR'', phone = ''0802''\<rparr>,
         \<lparr>lat = 1/2, lon = 0, id_no = 1003, name = ''Wellness'', address = ''BTM'', phone = ''0803''\<rparr>]\<rparr>"

definition exampleBatch :: "InventoryItem list" where
  "exampleBatch =
     [\<lparr>medicineName = ''Dolo'', itemPrice = 30, itemStock = None\<rparr>,
      \<lparr>medicineName = ''Paracip'', itemPrice = 10, itemStock = Some Unavailable\<rparr>]"

definition ownerApollo :: PharmacyOwner where
  "ownerApollo = \<lparr>ownerName = ''Apollo'', ownerPhone = ''0801'', ownerAddress = ''MG Road''\<rparr>"

definition ownerApolloLower :: PharmacyOwner where
  "ownerApolloLower = \<lparr>ownerName = ''apollo'', ownerPhone = ''0999'', ownerAddress = ''Elsewhere''\<rparr>"

definition ownerMedPlus :: PharmacyOwner where
  "ownerMedPlus = \<lparr>ownerName = ''MedPlus'', ownerPhone = ''0802'', ownerAddress = ''HSR''\<rparr>"

definition exampleLocation :: Location where
  "exampleLocation = \<lparr>lat = 2, lon = 0\<rparr>"

text \<open>A stand-in for \<open>haversineDistance\<close> in the examples, and a user location. The
  distances, prices and scores of the examples that use it are binary fractions, which
  rounding to a double leaves as they are: \<open>exampleRound\<close> is the rounding there.\<close>

definition exampleDistance :: "Location \<Rightarrow> Location \<Rightarrow> number" where
  "exampleDistance a b = Num (\<bar>lat b - lat a\<bar> + \<bar>lon b - lon a\<bar>)"

definition exampleRound :: "real \<Rightarrow> real" where
  "exampleRound x = x"

definition exampleUser :: Location where
  "exampleUser = \<lparr>lat = 0, lon = 0\<rparr>"



text \<open>Twenty pharmacies at distances 20 down to 1, without stock entries, and the same
  registry with an available entry of every pharmacy for one medicine.\<close>

definition capDb :: AppDatabase where
  "capDb =
     \<lparr>globalInventory = Map.empty,
      dynamicPharmacies =
        map (\<lambda>i. \<lparr>lat = real i, lon = 0, id_no = 2000 + int i, name = ''Pharmacy'',
                  address = ''Bangalore'', phone = ''080''\<rparr>)
          [20, 19, 18, 17, 16, 15, 14, 13, 12, 11, 10, 9, 8, 7, 6, 5, 4, 3, 2, 1]\<rparr>"

definition stockedDb :: AppDatabase where
  "stockedDb =
     capDb\<lparr>globalInventory :=
       [''dolo'' \<mapsto>
          map (\<lambda>i. \<lparr>pharmacyId = 2000 + int i, entryPrice = 10, entryStock = Available\<rparr>)
            [1, 2, 3, 4, 5, 6, 7, 8, 9, 10, 11, 12, 13, 14, 15, 16, 17, 18, 19, 20]]\<rparr>"


text \<open>
  Three pharmacies registered in this order for a user at latitude 12, longitude 77: one
  a degree of longitude away, one at the user's antipode, one a tenth of a degree away.
  In doubles \<open>haversineDistance\<close> returns 108.76499103465724 for the first and
  10.876505011439269 for the third; for the second \<open>a\<close> is 1.0000000000000002 and the
  result is \<open>NaN\<close>. \<open>antipodeDistance\<close> is that table.
\<close>

definition antipodeUser :: Location where
  "antipodeUser = \<lparr>lat = 12, lon = 77\<rparr>"

definition antipodeDb :: AppDatabase where
  "antipodeDb =
     \<lparr>globalInventory = Map.empty,
      dynamicPharmacies =
        [\<lparr>lat = 12, lon = 78, id_no = 1001, name = ''East'', address = ''A'', phone = ''0801''\<rparr>,
         \<lparr>lat = - 12, lon = - 103, id_no = 1002, name = ''Antipode'', address = ''B'', phone = ''0802''\<rparr>,
         \<lparr>lat = 12, lon = 771 / 10, id_no = 1003, name = ''Near'', address = ''C'', phone = ''0803''\<rparr>]\<rparr>"

definition antipodeDistance :: "Location \<Rightarrow> Location \<Rightarrow> number" where
  "antipodeDistance a b =
     (if lon b = 78 then Num (10876499103465724 / 100000000000000)
      else if lon b = - 103 then NaN
      else Num (10876505011439269 / 1000000000000000))"

section \<open>Library lemmas\<close>

lemma lower_char_idem: "lower_char (lower_char c) = lower_char c"
  by (auto simp: lower_char_def Let_def)

lemma toLowerCase_idem: "toLowerCase (toLowerCase s) = toLowerCase s"
  by (simp add: toLowerCase_def lower_char_idem)

lemma findIndex_None_iff: "findIndex P xs = None \<longleftrightarrow> (\<forall>x\<in>set xs. \<not> P x)"
  by (induction xs) auto

lemma findIndex_Some:
  "findIndex P xs = Some i \<Longrightarrow> i < length xs \<and> P (xs ! i) \<and> (\<forall>j<i. \<not> P (xs ! j))"
proof (induction xs arbitrary: i)
  case Nil
  then show ?case by simp
next
  case (Cons x xs)
  show ?case
  proof (cases "P x")
    case True
    with Cons.prems show ?thesis by simp
  next
    case False
    with Cons.prems obtain k where k: "findIndex P xs = Some k" "i = Suc k"
      by auto
    from Cons.IH[OF k(1)] False k(2) show ?thesis
      by (auto simp: less_Suc_eq_0_disj)
  qed
qed

lemma upsertEntry_Nil: "upsertEntry pid pr st [] = [\<lparr>pharmacyId = pid, entryPrice = pr, entryStock = st\<rparr>]"
  by (simp add: upsertEntry_def)

lemma upsertEntry_Cons:
  "upsertEntry pid pr st (e # es) =
     (if pharmacyId e = pid then e\<lparr>entryPrice := pr, entryStock := st\<rparr> # es
      else e # upsertEntry pid pr st es)"
  by (auto simp: upsertEntry_def split: option.splits)

lemma upsertEntry_absorb:
  "upsertEntry pid p2 s2 (upsertEntry pid p1 s1 es) = upsertEntry pid p2 s2 es"
  by (induction es) (simp_all add: upsertEntry_Nil upsertEntry_Cons)

lemma upsertEntry_not_Nil: "upsertEntry pid pr st es \<noteq> []"
  by (cases es) (simp_all add: upsertEntry_Nil upsertEntry_Cons)

lemma map_pharmacyId_upsertEntry:
  "map pharmacyId (upsertEntry pid pr st es) =
     (if pid \<in> pharmacyId ` set es then map pharmacyId es else map pharmacyId es @ [pid])"
  by (induction es) (auto simp: upsertEntry_Nil upsertEntry_Cons)

lemma distinct_upsertEntry:
  "distinct (map pharmacyId es) \<Longrightarrow> distinct (map pharmacyId (upsertEntry pid pr st es))"
  by (auto simp: map_pharmacyId_upsertEntry)

lemma upsertItem_absorb:
  assumes "toLowerCase (medicineName a) = toLowerCase (medicineName b)"
  shows "upsertItem pid b (upsertItem pid a gi) = upsertItem pid b gi"
  using assms by (auto simp: upsertItem_def collection_def Let_def upsertEntry_absorb)

lemma upsertItem_commute:
  assumes "toLowerCase (medicineName a) \<noteq> toLowerCase (medicineName b)"
  shows "upsertItem pid b (upsertItem pid a gi) = upsertItem pid a (upsertItem pid b gi)"
  using assms by (auto simp: upsertItem_def collection_def Let_def fun_upd_twist)

lemma upsert_fold_absorb:
  "upsertItem pid a (fold (upsertItem pid) ys (upsertItem pid a t)) =
   upsertItem pid a (fold (upsertItem pid) ys t)"
proof (induction ys arbitrary: t)
  case Nil
  show ?case by (simp add: upsertItem_absorb)
next
  case (Cons b zs)
  show ?case
  proof (cases "toLowerCase (medicineName a) = toLowerCase (medicineName b)")
    case True
    then show ?thesis by (simp add: upsertItem_absorb)
  next
    case False
    then have "upsertItem pid b (upsertItem pid a t) = upsertItem pid a (upsertItem pid b t)"
      by (rule upsertItem_commute)
    then show ?thesis using Cons.IH[of "upsertItem pid b t"] by simp
  qed
qed

lemma upsert_fold_idem:
  "fold (upsertItem pid) xs (fold (upsertItem pid) xs gi) = fold (upsertItem pid) xs gi"
proof (induction xs arbitrary: gi rule: rev_induct)
  case Nil
  show ?case by simp
next
  case (snoc a ys)
  have "fold (upsertItem pid) (ys @ [a]) (fold (upsertItem pid) (ys @ [a]) gi)
        = upsertItem pid a (fold (upsertItem pid) ys (upsertItem pid a (fold (upsertItem pid) ys gi)))"
    by simp
  also have "\<dots> = upsertItem pid a (fold (upsertItem pid) ys (fold (upsertItem pid) ys gi))"
    by (rule upsert_fold_absorb)
  also have "\<dots> = upsertItem pid a (fold (upsertItem pid) ys gi)"
    by (simp add: snoc.IH)
  finally show ?case by simp
qed

section \<open>Idempotence of the batch upsert\<close>

text \<open>
  Claim C6. \<open>updateGlobalInventory\<close> (upsertMany) is idempotent: for every pharmacy id,
  every batch of items and every stored database, running the same batch twice in
  succession leaves exactly the database that running it once leaves.
\<close>

theorem upsertMany_idempotent:
  "updateGlobalInventory pid items (updateGlobalInventory pid items db) =
   updateGlobalInventory pid items db"
  by (simp add: updateGlobalInventory_def upsert_fold_idem)


lemma lower_Dolo: "toLowerCase ''Dolo'' = ''dolo''" by code_simp
lemma lower_Paracip: "toLowerCase ''Paracip'' = ''paracip''" by code_simp
lemma lower_crocin: "toLowerCase ''crocin'' = ''crocin''" by code_simp
lemma lower_Zzyyxx: "toLowerCase ''Zzyyxx'' = ''zzyyxx''" by code_simp

lemma lower_Apollo: "toLowerCase ''Apollo'' = ''apollo''" by code_simp
lemma lower_apollo: "toLowerCase ''apollo'' = ''apollo''" by code_simp
lemma lower_MedPlus: "toLowerCase ''MedPlus'' = ''medplus''" by code_simp

lemma exampleIndex_wf: "indexWellFormed exampleIndex"
  by (simp add: indexWellFormed_def exampleIndex_def exampleEntries_def)


section \<open>Status updates touch existing entries only\<close>

lemma findIndex_Some_iff_ex: "(\<exists>i. findIndex P xs = Some i) \<longleftrightarrow> (\<exists>x\<in>set xs. P x)"
  using findIndex_None_iff[of P xs] by (cases "findIndex P xs") auto

text \<open>
  Claim C7. \<open>updateStockStatusInGlobalInventory\<close> (setStatus) changes the stock of an
  existing entry only. When the case-folded medicine key is absent, or its collection has
  no entry of the pharmacy, the stored database is returned unchanged. Otherwise the first
  entry of the pharmacy gets the new stock: the collection keeps its length, every entry
  keeps its pharmacy id and price, every other entry keeps its stock, every other key and
  the registry are unchanged.
\<close>

theorem setStatus_existing_only:
  "(globalInventory db (toLowerCase medicine) = None \<longrightarrow>
      updateStockStatusInGlobalInventory pid medicine st db = db) \<and>
   (\<forall>es. globalInventory db (toLowerCase medicine) = Some es \<and> pid \<notin> pharmacyId ` set es \<longrightarrow>
      updateStockStatusInGlobalInventory pid medicine st db = db) \<and>
   (\<forall>es. globalInventory db (toLowerCase medicine) = Some es \<and> pid \<in> pharmacyId ` set es \<longrightarrow>
      (\<exists>i es'. i < length es \<and> pharmacyId (es ! i) = pid \<and> (\<forall>j<i. pharmacyId (es ! j) \<noteq> pid) \<and>
         globalInventory (updateStockStatusInGlobalInventory pid medicine st db)
           (toLowerCase medicine) = Some es' \<and>
         length es' = length es \<and>
         (\<forall>j<length es. pharmacyId (es' ! j) = pharmacyId (es ! j) \<and>
                         entryPrice (es' ! j) = entryPrice (es ! j) \<and>
                         entryStock (es' ! j) = (if j = i then st else entryStock (es ! j))) \<and>
         (\<forall>k. k \<noteq> toLowerCase medicine \<longrightarrow>
            globalInventory (updateStockStatusInGlobalInventory pid medicine st db) k =
            globalInventory db k) \<and>
         dynamicPharmacies (updateStockStatusInGlobalInventory pid medicine st db) =
         dynamicPharmacies db))"
proof (intro conjI allI impI)
  assume "globalInventory db (toLowerCase medicine) = None"
  then show "updateStockStatusInGlobalInventory pid medicine st db = db"
    by (simp add: updateStockStatusInGlobalInventory_def)
next
  fix es
  assume "globalInventory db (toLowerCase medicine) = Some es \<and> pid \<notin> pharmacyId ` set es"
  then have "globalInventory db (toLowerCase medicine) = Some es"
    and "findIndex (\<lambda>p. pharmacyId p = pid) es = None"
    by (auto simp: findIndex_None_iff)
  then show "updateStockStatusInGlobalInventory pid medicine st db = db"
    by (simp add: updateStockStatusInGlobalInventory_def)
next
  fix es
  assume a: "globalInventory db (toLowerCase medicine) = Some es \<and> pid \<in> pharmacyId ` set es"
  then have "\<exists>x\<in>set es. pharmacyId x = pid" by auto
  then obtain i where i: "findIndex (\<lambda>p. pharmacyId p = pid) es = Some i"
    using findIndex_Some_iff_ex[of "\<lambda>p. pharmacyId p = pid" es] by blast
  note fi = findIndex_Some[OF i]
  let ?es' = "es[i := (es ! i)\<lparr>entryStock := st\<rparr>]"
  have r: "updateStockStatusInGlobalInventory pid medicine st db =
           db\<lparr>globalInventory := (globalInventory db)(toLowerCase medicine \<mapsto> ?es')\<rparr>"
    using a i by (simp add: updateStockStatusInGlobalInventory_def)
  have e: "\<forall>j<length es. pharmacyId (?es' ! j) = pharmacyId (es ! j) \<and>
                         entryPrice (?es' ! j) = entryPrice (es ! j) \<and>
                         entryStock (?es' ! j) = (if j = i then st else entryStock (es ! j))"
    by (simp add: nth_list_update)
  show "\<exists>i es'. i < length es \<and> pharmacyId (es ! i) = pid \<and> (\<forall>j<i. pharmacyId (es ! j) \<noteq> pid) \<and>
         globalInventory (updateStockStatusInGlobalInventory pid medicine st db)
           (toLowerCase medicine) = Some es' \<and>
         length es' = length es \<and>
         (\<forall>j<length es. pharmacyId (es' ! j) = pharmacyId (es ! j) \<and>
                         entryPrice (es' ! j) = entryPrice (es ! j) \<and>
                         entryStock (es' ! j) = (if j = i then st else entryStock (es ! j))) \<and>
         (\<forall>k. k \<noteq> toLowerCase medicine \<longrightarrow>
            globalInventory (updateStockStatusInGlobalInventory pid medicine st db) k =
            globalInventory db k) \<and>
         dynamicPharmacies (updateStockStatusInGlobalInventory pid medicine st db) =
         dynamicPharmacies db"
    apply (rule exI[of _ i], rule exI[of _ ?es'])
    using fi e by (simp add: r)
qed

theorem setStatus_existing_only_witness:
  "globalInventory exampleDb (toLowerCase ''Zzyyxx'') = None \<and>
   updateStockStatusInGlobalInventory 1001 ''Zzyyxx'' Unavailable exampleDb = exampleDb \<and>
   globalInventory exampleDb (toLowerCase ''Dolo'') = Some exampleEntries \<and>
   1003 \<notin> pharmacyId ` set exampleEntries \<and>
   updateStockStatusInGlobalInventory 1003 ''Dolo'' Unavailable exampleDb = exampleDb \<and>
   1002 \<in> pharmacyId ` set exampleEntries \<and>
   globalInventory (updateStockStatusInGlobalInventory 1002 ''Dolo'' Unavailable exampleDb) ''crocin''
     = globalInventory exampleDb ''crocin'' \<and>
   dynamicPharmacies (updateStockStatusInGlobalInventory 1002 ''Dolo'' Unavailable exampleDb)
     = dynamicPharmacies exampleDb"
proof -
  have a: "globalInventory exampleDb (toLowerCase ''Zzyyxx'') = None"
    by (simp add: lower_Zzyyxx exampleDb_def exampleIndex_def)
  have b: "globalInventory exampleDb (toLowerCase ''Dolo'') = Some exampleEntries"
    by (simp add: lower_Dolo exampleDb_def exampleIndex_def)
  have c: "1003 \<notin> pharmacyId ` set exampleEntries" "1002 \<in> pharmacyId ` set exampleEntries"
    by (simp_all add: exampleEntries_def)
  have d: "''crocin'' \<noteq> toLowerCase ''Dolo''" by (simp add: lower_Dolo)
  from setStatus_existing_only[of exampleDb "''Zzyyxx''" 1001 Unavailable] a
  have 1: "updateStockStatusInGlobalInventory 1001 ''Zzyyxx'' Unavailable exampleDb = exampleDb"
    by blast
  from setStatus_existing_only[of exampleDb "''Dolo''" 1003 Unavailable] b c(1)
  have 2: "updateStockStatusInGlobalInventory 1003 ''Dolo'' Unavailable exampleDb = exampleDb"
    by blast
  from setStatus_existing_only[of exampleDb "''Dolo''" 1002 Unavailable] b c(2) d
  have 3: "globalInventory (updateStockStatusInGlobalInventory 1002 ''Dolo'' Unavailable exampleDb) ''crocin''
     = globalInventory exampleDb ''crocin'' \<and>
   dynamicPharmacies (updateStockStatusInGlobalInventory 1002 ''Dolo'' Unavailable exampleDb)
     = dynamicPharmacies exampleDb"
    by blast
  from a b c 1 2 3 show ?thesis by blast
qed

section \<open>The invariant of the inventory index\<close>

lemma wf_upsertItem:
  "indexWellFormed gi \<Longrightarrow> indexWellFormed (upsertItem pid item gi)"
  by (auto simp: indexWellFormed_def upsertItem_def Let_def collection_def upsertEntry_not_Nil
        upsertEntry_Nil
      intro: distinct_upsertEntry split: option.splits if_splits)

lemma wf_fold_upsert:
  "indexWellFormed gi \<Longrightarrow> indexWellFormed (fold (upsertItem pid) items gi)"
  by (induction items arbitrary: gi) (simp_all add: wf_upsertItem)

lemma wf_setStatus:
  "indexWellFormed (globalInventory db) \<Longrightarrow>
   indexWellFormed (globalInventory (updateStockStatusInGlobalInventory pid medicine st db))"
proof -
  have m: "map pharmacyId (es[i := (es ! i)\<lparr>entryStock := st\<rparr>]) = map pharmacyId es"
    if "i < length es" for es :: "StockEntry list" and i
    using that by (simp add: list_eq_iff_nth_eq nth_list_update)
  assume w: "indexWellFormed (globalInventory db)"
  show ?thesis
  proof (cases "globalInventory db (toLowerCase medicine)")
    case None
    then show ?thesis using w by (simp add: updateStockStatusInGlobalInventory_def)
  next
    case (Some es)
    show ?thesis
    proof (cases "findIndex (\<lambda>p. pharmacyId p = pid) es")
      case None
      then show ?thesis using w Some by (simp add: updateStockStatusInGlobalInventory_def)
    next
      case (Some i)
      from findIndex_Some[OF Some] have "i < length es" by simp
      from m[OF this] w \<open>globalInventory db (toLowerCase medicine) = Some es\<close> Some
      show ?thesis
        by (auto simp: updateStockStatusInGlobalInventory_def indexWellFormed_def)
    qed
  qed
qed

lemma wf_delete:
  "indexWellFormed (globalInventory db) \<Longrightarrow>
   indexWellFormed (globalInventory (deleteFromGlobalInventory pid medicine db))"
  by (auto simp: deleteFromGlobalInventory_def indexWellFormed_def Let_def distinct_map_filter
      split: option.splits if_splits)

lemma delete_last:
  assumes "globalInventory db (toLowerCase medicine) = Some es" "\<forall>e\<in>set es. pharmacyId e = pid"
  shows "globalInventory (deleteFromGlobalInventory pid medicine db) (toLowerCase medicine) = None"
proof -
  from assms(2) have "filter (\<lambda>p. pharmacyId p \<noteq> pid) es = []" by (simp add: filter_empty_conv)
  with assms(1) show ?thesis by (simp add: deleteFromGlobalInventory_def)
qed

text \<open>
  Claim C5. The invariant of the index (a present key has a non-empty collection with at
  most one entry for each pharmacy id) is preserved by \<open>updateGlobalInventory\<close>,
  \<open>updateStockStatusInGlobalInventory\<close> and \<open>deleteFromGlobalInventory\<close>. When
  \<open>deleteFromGlobalInventory\<close> removes the last entries of a collection, the key is deleted
  and \<open>checkMedicineLocally\<close> answers false for that medicine.
\<close>

theorem index_invariant_preserved:
  "indexWellFormed (globalInventory db) \<longrightarrow>
     indexWellFormed (globalInventory (updateGlobalInventory pid items db)) \<and>
     indexWellFormed (globalInventory (updateStockStatusInGlobalInventory pid medicine st db)) \<and>
     indexWellFormed (globalInventory (deleteFromGlobalInventory pid medicine db)) \<and>
     (\<forall>es. globalInventory db (toLowerCase medicine) = Some es \<and> (\<forall>e\<in>set es. pharmacyId e = pid) \<longrightarrow>
        globalInventory (deleteFromGlobalInventory pid medicine db) (toLowerCase medicine) = None \<and>
        \<not> checkMedicineLocally medicine (deleteFromGlobalInventory pid medicine db))"
  using wf_fold_upsert[of "globalInventory db" pid items] wf_setStatus[of db pid medicine st]
    wf_delete[of db pid medicine] delete_last[of db medicine _ pid]
  by (auto simp: updateGlobalInventory_def checkMedicineLocally_def)


theorem index_invariant_preserved_witness:
  "indexWellFormed (globalInventory exampleDb) \<and>
   indexWellFormed (globalInventory (updateGlobalInventory 1001 exampleBatch exampleDb)) \<and>
   indexWellFormed (globalInventory (updateStockStatusInGlobalInventory 1001 ''crocin'' Available exampleDb)) \<and>
   indexWellFormed (globalInventory (deleteFromGlobalInventory 1001 ''crocin'' exampleDb)) \<and>
   globalInventory (deleteFromGlobalInventory 1001 ''crocin'' exampleDb) (toLowerCase ''crocin'') = None \<and>
   \<not> checkMedicineLocally ''crocin'' (deleteFromGlobalInventory 1001 ''crocin'' exampleDb)"
proof -
  have w: "indexWellFormed (globalInventory exampleDb)"
    by (simp add: exampleDb_def exampleIndex_wf)
  have c: "globalInventory exampleDb (toLowerCase ''crocin'') =
             Some [\<lparr>pharmacyId = 1001, entryPrice = 20, entryStock = Unavailable\<rparr>] \<and>
           (\<forall>e\<in>set [\<lparr>pharmacyId = 1001, entryPrice = 20, entryStock = Unavailable\<rparr>]. pharmacyId e = 1001)"
    by (simp add: lower_crocin exampleDb_def exampleIndex_def)
  from index_invariant_preserved[where db = exampleDb and pid = 1001 and items = exampleBatch
      and medicine = "''crocin''" and st = Available] w c
  show ?thesis by blast
qed

section \<open>What a batch upsert leaves alone\<close>

lemma touchesOnly_refl: "touchesOnly pid es es"
  by (simp add: touchesOnly_def)

lemma touchesOnly_trans:
  assumes "touchesOnly pid es es'" "touchesOnly pid es' es''"
  shows "touchesOnly pid es es''"
  unfolding touchesOnly_def
proof (intro conjI allI impI)
  show "length es \<le> length es''" using assms by (simp add: touchesOnly_def)
next
  fix j assume j: "j < length es"
  then have j': "j < length es'" using assms(1) by (simp add: touchesOnly_def)
  show "pharmacyId (es'' ! j) = pharmacyId (es ! j)"
    using assms j j' by (simp add: touchesOnly_def)
next
  fix j assume j: "j < length es" and n: "pharmacyId (es ! j) \<noteq> pid"
  then have j': "j < length es'" using assms(1) by (simp add: touchesOnly_def)
  have "es' ! j = es ! j" using assms(1) j n by (simp add: touchesOnly_def)
  moreover have "es'' ! j = es' ! j" using assms j j' n by (simp add: touchesOnly_def)
  ultimately show "es'' ! j = es ! j" by simp
next
  fix j assume j: "length es \<le> j \<and> j < length es''"
  show "pharmacyId (es'' ! j) = pid"
  proof (cases "j < length es'")
    case True
    then have "pharmacyId (es'' ! j) = pharmacyId (es' ! j)" using assms(2) by (simp add: touchesOnly_def)
    moreover have "pharmacyId (es' ! j) = pid" using assms(1) j True by (simp add: touchesOnly_def)
    ultimately show ?thesis by simp
  next
    case False
    then show ?thesis using assms(2) j by (simp add: touchesOnly_def)
  qed
qed

lemma touchesOnly_upsertEntry: "touchesOnly pid es (upsertEntry pid pr st es)"
proof (cases "findIndex (\<lambda>p. pharmacyId p = pid) es")
  case None
  then show ?thesis
    by (auto simp: touchesOnly_def upsertEntry_def nth_append)
next
  case (Some i)
  from findIndex_Some[OF Some] show ?thesis using Some
    by (auto simp: touchesOnly_def upsertEntry_def nth_list_update)
qed

lemma collection_upsertItem:
  "collection (upsertItem pid item gi) k =
     (if k = toLowerCase (medicineName item)
      then upsertEntry pid (itemPrice item)
             (case itemStock item of None \<Rightarrow> Available | Some s \<Rightarrow> s) (collection gi k)
      else collection gi k)"
  by (simp add: upsertItem_def collection_def Let_def)

lemma touchesOnly_upsertItem:
  "touchesOnly pid (collection gi k) (collection (upsertItem pid item gi) k)"
  by (simp add: collection_upsertItem touchesOnly_upsertEntry touchesOnly_refl)

lemma touchesOnly_fold:
  "touchesOnly pid (collection gi k) (collection (fold (upsertItem pid) items gi) k)"
proof (induction items arbitrary: gi)
  case Nil
  show ?case by (simp add: touchesOnly_refl)
next
  case (Cons a items)
  have "touchesOnly pid (collection gi k) (collection (upsertItem pid a gi) k)"
    by (rule touchesOnly_upsertItem)
  from touchesOnly_trans[OF this Cons.IH[of "upsertItem pid a gi"]]
  show ?case by simp
qed

lemma fold_upsert_other_key:
  "k \<notin> (\<lambda>it. toLowerCase (medicineName it)) ` set items \<Longrightarrow>
   fold (upsertItem pid) items gi k = gi k"
proof (induction items arbitrary: gi)
  case Nil
  show ?case by simp
next
  case (Cons a items)
  then have "fold (upsertItem pid) items (upsertItem pid a gi) k = upsertItem pid a gi k"
    by simp
  moreover have "upsertItem pid a gi k = gi k"
    using Cons.prems by (auto simp: upsertItem_def Let_def)
  ultimately show ?case by simp
qed

lemma folded_key_not_named:
  assumes "toLowerCase k \<notin> (\<lambda>it. toLowerCase (medicineName it)) ` set items"
  shows "k \<notin> (\<lambda>it. toLowerCase (medicineName it)) ` set items"
proof
  assume "k \<in> (\<lambda>it. toLowerCase (medicineName it)) ` set items"
  then obtain it where "it \<in> set items" "k = toLowerCase (medicineName it)" by auto
  then have "toLowerCase k = toLowerCase (medicineName it)" by (simp add: toLowerCase_idem)
  with \<open>it \<in> set items\<close> assms show False by auto
qed

text \<open>
  Claim C10. \<open>updateGlobalInventory\<close> touches only what the batch names. The registry is
  unchanged. A key whose case-folded form is not the case-folded name of an item of the
  batch (and, more generally, a key that is not itself such a name) maps to what it mapped
  to before. In every collection, the entries that were there stay at their positions with
  their pharmacy ids, those of another pharmacy are unchanged, and the entries appended
  after them belong to the given pharmacy.
\<close>

theorem upsertMany_frame:
  "dynamicPharmacies (updateGlobalInventory pid items db) = dynamicPharmacies db \<and>
   (\<forall>k. toLowerCase k \<notin> (\<lambda>it. toLowerCase (medicineName it)) ` set items \<longrightarrow>
      globalInventory (updateGlobalInventory pid items db) k = globalInventory db k) \<and>
   (\<forall>k. k \<notin> (\<lambda>it. toLowerCase (medicineName it)) ` set items \<longrightarrow>
      globalInventory (updateGlobalInventory pid items db) k = globalInventory db k) \<and>
   (\<forall>k. length (collection (globalInventory db) k)
          \<le> length (collection (globalInventory (updateGlobalInventory pid items db)) k) \<and>
        (\<forall>j<length (collection (globalInventory db) k).
           pharmacyId (collection (globalInventory (updateGlobalInventory pid items db)) k ! j)
             = pharmacyId (collection (globalInventory db) k ! j) \<and>
           (pharmacyId (collection (globalInventory db) k ! j) \<noteq> pid \<longrightarrow>
              collection (globalInventory (updateGlobalInventory pid items db)) k ! j
                = collection (globalInventory db) k ! j)) \<and>
        (\<forall>j. length (collection (globalInventory db) k) \<le> j \<and>
             j < length (collection (globalInventory (updateGlobalInventory pid items db)) k) \<longrightarrow>
             pharmacyId (collection (globalInventory (updateGlobalInventory pid items db)) k ! j)
               = pid))"
proof -
  have g: "globalInventory (updateGlobalInventory pid items db) =
           fold (upsertItem pid) items (globalInventory db)"
    by (simp add: updateGlobalInventory_def)
  have 1: "dynamicPharmacies (updateGlobalInventory pid items db) = dynamicPharmacies db"
    by (simp add: updateGlobalInventory_def)
  have 3: "\<forall>k. k \<notin> (\<lambda>it. toLowerCase (medicineName it)) ` set items \<longrightarrow>
      globalInventory (updateGlobalInventory pid items db) k = globalInventory db k"
    unfolding g by (simp add: fold_upsert_other_key)
  have 2: "\<forall>k. toLowerCase k \<notin> (\<lambda>it. toLowerCase (medicineName it)) ` set items \<longrightarrow>
      globalInventory (updateGlobalInventory pid items db) k = globalInventory db k"
    using 3 folded_key_not_named by blast
  have 4: "touchesOnly pid (collection (globalInventory db) k)
             (collection (globalInventory (updateGlobalInventory pid items db)) k)" for k
    unfolding g by (rule touchesOnly_fold)
  show ?thesis
    using 1 2 3 4 unfolding touchesOnly_def by blast
qed

theorem upsertMany_frame_witness:
  "toLowerCase ''crocin'' \<notin> (\<lambda>it. toLowerCase (medicineName it)) ` set exampleBatch \<and>
   globalInventory (updateGlobalInventory 1002 exampleBatch exampleDb) ''crocin''
     = globalInventory exampleDb ''crocin'' \<and>
   0 < length (collection (globalInventory exampleDb) ''dolo'') \<and>
   pharmacyId (collection (globalInventory exampleDb) ''dolo'' ! 0) \<noteq> 1002 \<and>
   collection (globalInventory (updateGlobalInventory 1002 exampleBatch exampleDb)) ''dolo'' ! 0
     = collection (globalInventory exampleDb) ''dolo'' ! 0 \<and>
   length (collection (globalInventory exampleDb) ''paracip'') \<le> 0 \<and>
   0 < length (collection (globalInventory (updateGlobalInventory 1002 exampleBatch exampleDb)) ''paracip'') \<and>
   pharmacyId (collection (globalInventory (updateGlobalInventory 1002 exampleBatch exampleDb)) ''paracip'' ! 0)
     = 1002"
proof -
  note t = upsertMany_frame[of 1002 exampleBatch exampleDb]
  have a: "toLowerCase ''crocin'' \<notin> (\<lambda>it. toLowerCase (medicineName it)) ` set exampleBatch"
    by (simp add: exampleBatch_def lower_crocin lower_Dolo lower_Paracip)
  have b: "0 < length (collection (globalInventory exampleDb) ''dolo'')"
          "pharmacyId (collection (globalInventory exampleDb) ''dolo'' ! 0) \<noteq> 1002"
    by (simp_all add: exampleDb_def exampleIndex_def exampleEntries_def collection_def)
  have c: "length (collection (globalInventory exampleDb) ''paracip'') \<le> 0"
    by (simp add: exampleDb_def exampleIndex_def collection_def)
  have d: "0 < length (collection (globalInventory (updateGlobalInventory 1002 exampleBatch exampleDb)) ''paracip'')"
    by (simp add: updateGlobalInventory_def exampleBatch_def collection_upsertItem lower_Dolo
          lower_Paracip upsertEntry_not_Nil)
  from t a have 1: "globalInventory (updateGlobalInventory 1002 exampleBatch exampleDb) ''crocin''
     = globalInventory exampleDb ''crocin''" by blast
  from t b have 2: "collection (globalInventory (updateGlobalInventory 1002 exampleBatch exampleDb)) ''dolo'' ! 0
     = collection (globalInventory exampleDb) ''dolo'' ! 0" by blast
  from t c d have 3: "pharmacyId (collection (globalInventory (updateGlobalInventory 1002 exampleBatch exampleDb)) ''paracip'' ! 0)
     = 1002" by blast
  from a b c d 1 2 3 show ?thesis by blast
qed


section \<open>The pharmacy registry\<close>

lemma find_append_Some: "find P xs = Some x \<Longrightarrow> find P (xs @ ys) = Some x"
  by (induction xs) (auto split: if_splits)

lemma find_append_None: "find P xs = None \<Longrightarrow> find P (xs @ ys) = find P ys"
  by (induction xs) (auto split: if_splits)

lemma find_Some_first:
  "find P xs = Some x \<Longrightarrow> \<exists>i<length xs. xs ! i = x \<and> P x \<and> (\<forall>j<i. \<not> P (xs ! j))"
proof (induction xs)
  case Nil
  then show ?case by simp
next
  case (Cons y ys)
  show ?case
  proof (cases "P y")
    case True
    with Cons.prems show ?thesis by auto
  next
    case False
    with Cons.prems have "find P ys = Some x" by simp
    from Cons.IH[OF this] obtain i where i: "i < length ys" "ys ! i = x" "P x" "\<forall>j<i. \<not> P (ys ! j)"
      by blast
    have "\<forall>j<Suc i. \<not> P ((y # ys) ! j)"
      using False i(4) by (auto simp: less_Suc_eq_0_disj)
    with i show ?thesis by (intro exI[of _ "Suc i"]) auto
  qed
qed

lemma dynamicPharmacies_upsert [simp]:
  "dynamicPharmacies (updateGlobalInventory pid items db) = dynamicPharmacies db"
  by (simp add: updateGlobalInventory_def)

lemma dynamicPharmacies_status [simp]:
  "dynamicPharmacies (updateStockStatusInGlobalInventory pid medicine st db) = dynamicPharmacies db"
  by (simp add: updateStockStatusInGlobalInventory_def Let_def split: option.splits)

lemma dynamicPharmacies_delete [simp]:
  "dynamicPharmacies (deleteFromGlobalInventory pid medicine db) = dynamicPharmacies db"
  by (simp add: deleteFromGlobalInventory_def Let_def split: option.splits)

lemma allPharmacies_dynamic: "allPharmacies db = dynamicPharmacies db"
  by (simp add: allPharmacies_def VERIFIED_PHARMACIES_IN_BANGALORE_def)

lemma register_hit:
  "find (\<lambda>p. toLowerCase (name p) = toLowerCase (ownerName details)) (allPharmacies db) = Some p \<Longrightarrow>
   registerOrGetPharmacy details location db = (db, p)"
  by (simp add: registerOrGetPharmacy_def)

lemma register_miss:
  assumes "find (\<lambda>p. toLowerCase (name p) = toLowerCase (ownerName details)) (allPharmacies db) = None"
  shows "dynamicPharmacies (fst (registerOrGetPharmacy details location db)) =
           dynamicPharmacies db @ [snd (registerOrGetPharmacy details location db)]"
    and "globalInventory (fst (registerOrGetPharmacy details location db)) = globalInventory db"
    and "id_no (snd (registerOrGetPharmacy details location db)) =
           Max (set (map id_no (allPharmacies db) @ [1000])) + 1"
    and "name (snd (registerOrGetPharmacy details location db)) = ownerName details"
    and "address (snd (registerOrGetPharmacy details location db)) = ownerAddress details"
    and "phone (snd (registerOrGetPharmacy details location db)) = ownerPhone details"
    and "lat (snd (registerOrGetPharmacy details location db)) = lat location"
    and "lon (snd (registerOrGetPharmacy details location db)) = lon location"
  using assms by (simp_all add: registerOrGetPharmacy_def Let_def)

lemma register_finds_after:
  "find (\<lambda>p. toLowerCase (name p) = toLowerCase (ownerName details))
     (allPharmacies (fst (registerOrGetPharmacy details location db)))
   = Some (snd (registerOrGetPharmacy details location db))"
proof (cases "find (\<lambda>p. toLowerCase (name p) = toLowerCase (ownerName details)) (allPharmacies db)")
  case None
  from register_miss(1,4)[OF None, of location] None show ?thesis
    by (simp add: allPharmacies_dynamic find_append_None)
next
  case (Some p)
  then show ?thesis by (simp add: register_hit)
qed

lemma minted_id_greater:
  assumes "find (\<lambda>p. toLowerCase (name p) = toLowerCase (ownerName details)) (allPharmacies db) = None"
  shows "\<forall>p\<in>set (allPharmacies db). id_no p < id_no (snd (registerOrGetPharmacy details location db))"
    and "1000 < id_no (snd (registerOrGetPharmacy details location db))"
proof -
  let ?S = "set (map id_no (allPharmacies db) @ [1000])"
  have f: "finite ?S" by simp
  have m: "id_no (snd (registerOrGetPharmacy details location db)) = Max ?S + 1"
    by (rule register_miss(3)[OF assms])
  show "\<forall>p\<in>set (allPharmacies db). id_no p < id_no (snd (registerOrGetPharmacy details location db))"
  proof
    fix p assume "p \<in> set (allPharmacies db)"
    then have "id_no p \<in> ?S" by simp
    from Max_ge[OF f this] m show "id_no p < id_no (snd (registerOrGetPharmacy details location db))"
      by simp
  qed
  have "1000 \<in> ?S" by simp
  from Max_ge[OF f this] m show "1000 < id_no (snd (registerOrGetPharmacy details location db))"
    by simp
qed

lemma find_None_iff': "find P xs = None \<longleftrightarrow> (\<forall>x\<in>set xs. \<not> P x)"
  by (induction xs) auto

lemma registryInv_register:
  assumes "registryInv db"
  shows "registryInv (fst (registerOrGetPharmacy details location db))"
proof (cases "find (\<lambda>p. toLowerCase (name p) = toLowerCase (ownerName details)) (allPharmacies db)")
  case None
  note miss = register_miss[OF None, of location] and gr = minted_id_greater[OF None, of location]
  from None have nm: "\<forall>p\<in>set (dynamicPharmacies db). toLowerCase (name p) \<noteq> toLowerCase (ownerName details)"
    by (simp add: find_None_iff' allPharmacies_dynamic)
  show ?thesis
    using assms gr nm unfolding registryInv_def miss(1)
    by (auto simp: sorted_wrt_append allPharmacies_dynamic miss(4))
next
  case (Some p)
  with assms show ?thesis by (simp add: register_hit)
qed

lemma reachable_registryInv: "reachable db \<Longrightarrow> registryInv db"
proof (induction rule: reachable.induct)
  case init
  show ?case by (simp add: registryInv_def emptyDb_def)
next
  case (register db details location)
  then show ?case by (simp add: registryInv_register)
next
  case (upsert db pid items)
  then show ?case by (simp add: registryInv_def)
next
  case (status db pid medicine st)
  then show ?case by (simp add: registryInv_def)
next
  case (delete db pid medicine)
  then show ?case by (simp add: registryInv_def)
qed

lemma sorted_wrt_less_distinct: "sorted_wrt (<) (xs :: int list) \<Longrightarrow> distinct xs"
  by (induction xs) auto

text \<open>
  Claim C3. Registration is find-or-create by case-folded name. After a call of
  \<open>registerOrGetPharmacy\<close> for one name, a call for a name that is equal under case
  folding, in the database the first call left or in any database whose registry extends
  it, returns the very record of the first call (so the same id) and stores nothing. When
  the name matches a pharmacy of the registry, the call returns the first matching record
  as it is stored and leaves the stored database unchanged; address, phone and
  coordinates of the request are discarded.
\<close>

theorem findOrCreate_same_record:
  "(toLowerCase (ownerName d1) = toLowerCase (ownerName d2) \<longrightarrow>
      (\<forall>(later :: AppDatabase) more. dynamicPharmacies later =
                       dynamicPharmacies (fst (registerOrGetPharmacy d1 l1 db)) @ more \<longrightarrow>
         registerOrGetPharmacy d2 l2 later = (later, snd (registerOrGetPharmacy d1 l1 db)))) \<and>
   ((\<exists>p\<in>set (allPharmacies db). toLowerCase (name p) = toLowerCase (ownerName d1)) \<longrightarrow>
      fst (registerOrGetPharmacy d1 l1 db) = db \<and>
      (\<exists>i<length (allPharmacies db).
         snd (registerOrGetPharmacy d1 l1 db) = allPharmacies db ! i \<and>
         toLowerCase (name (allPharmacies db ! i)) = toLowerCase (ownerName d1) \<and>
         (\<forall>j<i. toLowerCase (name (allPharmacies db ! j)) \<noteq> toLowerCase (ownerName d1))))"
proof (intro conjI impI allI)
  fix later :: AppDatabase and more
  assume eq: "toLowerCase (ownerName d1) = toLowerCase (ownerName d2)"
    and later: "dynamicPharmacies later = dynamicPharmacies (fst (registerOrGetPharmacy d1 l1 db)) @ more"
  have "find (\<lambda>p. toLowerCase (name p) = toLowerCase (ownerName d2)) (allPharmacies later)
        = Some (snd (registerOrGetPharmacy d1 l1 db))"
    using register_finds_after[of d1 l1 db] eq later
    by (simp add: allPharmacies_dynamic find_append_Some)
  then show "registerOrGetPharmacy d2 l2 later = (later, snd (registerOrGetPharmacy d1 l1 db))"
    by (rule register_hit)
next
  assume "\<exists>p\<in>set (allPharmacies db). toLowerCase (name p) = toLowerCase (ownerName d1)"
  then have "find (\<lambda>p. toLowerCase (name p) = toLowerCase (ownerName d1)) (allPharmacies db) \<noteq> None"
    by (simp add: find_None_iff')
  then obtain p where p: "find (\<lambda>p. toLowerCase (name p) = toLowerCase (ownerName d1)) (allPharmacies db) = Some p"
    by blast
  from register_hit[OF p] have r: "registerOrGetPharmacy d1 l1 db = (db, p)" .
  then show "fst (registerOrGetPharmacy d1 l1 db) = db" by simp
  from find_Some_first[OF p] r
  show "\<exists>i<length (allPharmacies db).
         snd (registerOrGetPharmacy d1 l1 db) = allPharmacies db ! i \<and>
         toLowerCase (name (allPharmacies db ! i)) = toLowerCase (ownerName d1) \<and>
         (\<forall>j<i. toLowerCase (name (allPharmacies db ! j)) \<noteq> toLowerCase (ownerName d1))"
    by auto
qed

theorem findOrCreate_same_record_witness:
  "toLowerCase (ownerName ownerApollo) = toLowerCase (ownerName ownerApolloLower) \<and>
   registerOrGetPharmacy ownerApolloLower \<lparr>lat = 5, lon = 5\<rparr>
       (fst (registerOrGetPharmacy ownerApollo exampleLocation emptyDb))
     = (fst (registerOrGetPharmacy ownerApollo exampleLocation emptyDb),
        snd (registerOrGetPharmacy ownerApollo exampleLocation emptyDb)) \<and>
   (\<exists>p\<in>set (allPharmacies exampleDb). toLowerCase (name p) = toLowerCase (ownerName ownerApolloLower)) \<and>
   fst (registerOrGetPharmacy ownerApolloLower \<lparr>lat = 5, lon = 5\<rparr> exampleDb) = exampleDb"
proof -
  have a: "toLowerCase (ownerName ownerApollo) = toLowerCase (ownerName ownerApolloLower)"
    by (simp add: ownerApollo_def ownerApolloLower_def lower_Apollo lower_apollo)
  have b: "\<exists>p\<in>set (allPharmacies exampleDb). toLowerCase (name p) = toLowerCase (ownerName ownerApolloLower)"
    by (simp add: allPharmacies_dynamic exampleDb_def ownerApolloLower_def lower_Apollo lower_apollo)
  have c: "dynamicPharmacies (fst (registerOrGetPharmacy ownerApollo exampleLocation emptyDb)) =
           dynamicPharmacies (fst (registerOrGetPharmacy ownerApollo exampleLocation emptyDb)) @ []"
    by simp
  from findOrCreate_same_record[of ownerApollo ownerApolloLower exampleLocation emptyDb "\<lparr>lat = 5, lon = 5\<rparr>"] a c
  have 1: "registerOrGetPharmacy ownerApolloLower \<lparr>lat = 5, lon = 5\<rparr>
       (fst (registerOrGetPharmacy ownerApollo exampleLocation emptyDb))
     = (fst (registerOrGetPharmacy ownerApollo exampleLocation emptyDb),
        snd (registerOrGetPharmacy ownerApollo exampleLocation emptyDb))"
    by blast
  from findOrCreate_same_record[of ownerApolloLower ownerApolloLower "\<lparr>lat = 5, lon = 5\<rparr>" exampleDb "\<lparr>lat = 5, lon = 5\<rparr>"] b
  have 2: "fst (registerOrGetPharmacy ownerApolloLower \<lparr>lat = 5, lon = 5\<rparr> exampleDb) = exampleDb"
    by blast
  from a b 1 2 show ?thesis by blast
qed

text \<open>
  Claim C4. A registration that creates a pharmacy gives it the id
  \<open>max(existing ids, 1000) + 1\<close>, which is greater than every id of the registry and
  greater than the baseline 1000. In every database that is reachable the ids of the
  registry are strictly increasing in the order of registration, hence pairwise
  distinct, and they remain so after a further registration.
\<close>

theorem minted_ids_fresh:
  "(find (\<lambda>p. toLowerCase (name p) = toLowerCase (ownerName details)) (allPharmacies db) = None \<longrightarrow>
      id_no (snd (registerOrGetPharmacy details location db)) =
        Max (insert 1000 (id_no ` set (allPharmacies db))) + 1 \<and>
      (\<forall>p\<in>set (allPharmacies db).
         id_no p < id_no (snd (registerOrGetPharmacy details location db))) \<and>
      1000 < id_no (snd (registerOrGetPharmacy details location db)) \<and>
      allPharmacies (fst (registerOrGetPharmacy details location db)) =
        allPharmacies db @ [snd (registerOrGetPharmacy details location db)]) \<and>
   (reachable db \<longrightarrow>
      reachable (fst (registerOrGetPharmacy details location db)) \<and>
      sorted_wrt (<) (map id_no (allPharmacies db)) \<and>
      distinct (map id_no (allPharmacies db)) \<and>
      distinct (map id_no (allPharmacies (fst (registerOrGetPharmacy details location db)))))"
proof (intro conjI impI)
  assume n: "find (\<lambda>p. toLowerCase (name p) = toLowerCase (ownerName details)) (allPharmacies db) = None"
  show "id_no (snd (registerOrGetPharmacy details location db)) =
        Max (insert 1000 (id_no ` set (allPharmacies db))) + 1"
    using register_miss(3)[OF n, of location] by simp
  show "\<forall>p\<in>set (allPharmacies db). id_no p < id_no (snd (registerOrGetPharmacy details location db))"
    by (rule minted_id_greater(1)[OF n])
  show "1000 < id_no (snd (registerOrGetPharmacy details location db))"
    by (rule minted_id_greater(2)[OF n])
  show "allPharmacies (fst (registerOrGetPharmacy details location db)) =
        allPharmacies db @ [snd (registerOrGetPharmacy details location db)]"
    using register_miss(1)[OF n, of location] by (simp add: allPharmacies_dynamic)
next
  assume r: "reachable db"
  then show r': "reachable (fst (registerOrGetPharmacy details location db))"
    by (rule reachable.register)
  from reachable_registryInv[OF r] show s: "sorted_wrt (<) (map id_no (allPharmacies db))"
    by (simp add: registryInv_def allPharmacies_dynamic)
  from s show "distinct (map id_no (allPharmacies db))" by (rule sorted_wrt_less_distinct)
  from reachable_registryInv[OF r'] 
  show "distinct (map id_no (allPharmacies (fst (registerOrGetPharmacy details location db))))"
    by (simp add: registryInv_def allPharmacies_dynamic sorted_wrt_less_distinct)
qed


lemma register_Apollo_empty:
  "registerOrGetPharmacy ownerApollo exampleLocation emptyDb =
     (\<lparr>globalInventory = Map.empty,
       dynamicPharmacies =
         [\<lparr>lat = 2, lon = 0, id_no = 1001, name = ''Apollo'', address = ''MG Road'', phone = ''0801''\<rparr>]\<rparr>,
      \<lparr>lat = 2, lon = 0, id_no = 1001, name = ''Apollo'', address = ''MG Road'', phone = ''0801''\<rparr>)"
  by (simp add: registerOrGetPharmacy_def allPharmacies_dynamic emptyDb_def ownerApollo_def
        exampleLocation_def Let_def)

theorem minted_ids_fresh_witness:
  "reachable (fst (registerOrGetPharmacy ownerApollo exampleLocation emptyDb)) \<and>
   find (\<lambda>p. toLowerCase (name p) = toLowerCase (ownerName ownerMedPlus))
     (allPharmacies (fst (registerOrGetPharmacy ownerApollo exampleLocation emptyDb))) = None \<and>
   id_no (snd (registerOrGetPharmacy ownerMedPlus exampleLocation
                 (fst (registerOrGetPharmacy ownerApollo exampleLocation emptyDb)))) = 1002 \<and>
   1000 < id_no (snd (registerOrGetPharmacy ownerMedPlus exampleLocation
                 (fst (registerOrGetPharmacy ownerApollo exampleLocation emptyDb)))) \<and>
   distinct (map id_no (allPharmacies (fst (registerOrGetPharmacy ownerMedPlus exampleLocation
                 (fst (registerOrGetPharmacy ownerApollo exampleLocation emptyDb))))))"
proof -
  let ?db = "fst (registerOrGetPharmacy ownerApollo exampleLocation emptyDb)"
  have r: "reachable ?db"
    by (rule reachable.register[OF reachable.init])
  have n: "find (\<lambda>p. toLowerCase (name p) = toLowerCase (ownerName ownerMedPlus)) (allPharmacies ?db) = None"
    by (simp add: register_Apollo_empty allPharmacies_dynamic ownerMedPlus_def lower_Apollo lower_MedPlus)
  have m: "Max (insert 1000 (id_no ` set (allPharmacies ?db))) + 1 = 1002"
    by (simp add: register_Apollo_empty allPharmacies_dynamic)
  note t = minted_ids_fresh[of ownerMedPlus ?db exampleLocation]
  from t n m have 1: "id_no (snd (registerOrGetPharmacy ownerMedPlus exampleLocation ?db)) = 1002"
    by presburger
  from t n have 2: "1000 < id_no (snd (registerOrGetPharmacy ownerMedPlus exampleLocation ?db))"
    by blast
  from t r have 3: "distinct (map id_no (allPharmacies (fst (registerOrGetPharmacy ownerMedPlus exampleLocation ?db))))"
    by blast
  from r n 1 2 3 show ?thesis by blast
qed


section \<open>The nearby-match engine\<close>

lemma combine_eq: "combine av un = av @ take (15 - length av) un"
  by (auto simp: combine_def MAX_RESULTS_def Let_def nat_diff_distrib')

lemma findIndex_append_first:
  "\<exists>x\<in>set xs. P x \<Longrightarrow> \<exists>i<length xs. findIndex P (xs @ ys) = Some i \<and> findIndex P xs = Some i"
  by (induction xs) auto


lemma foldl_better_index: "\<exists>i<length (x # xs). foldl (better fl) x xs = (x # xs) ! i"
proof (induction xs rule: rev_induct)
  case Nil
  show ?case by simp
next
  case (snoc y ys)
  then obtain i where i: "i < length (x # ys)" "foldl (better fl) x ys = (x # ys) ! i"
    by blast
  have nth_old: "(x # ys @ [y]) ! i = (x # ys) ! i"
    using i(1) nth_append[of "x # ys" "[y]" i] by simp
  have nth_new: "(x # ys @ [y]) ! length (x # ys) = y"
    using nth_append_length[of "x # ys" y "[]"] by simp
  show ?case
  proof (cases "jsLess (score fl y) (score fl ((x # ys) ! i))")
    case True
    then have "foldl (better fl) x (ys @ [y]) = y" using i(2) by (simp add: better_def)
    with nth_new show ?thesis by (intro exI[of _ "length (x # ys)"]) simp
  next
    case False
    then have "foldl (better fl) x (ys @ [y]) = (x # ys) ! i" using i(2) by (simp add: better_def)
    with nth_old i(1) show ?thesis by (intro exI[of _ i]) simp
  qed
qed


lemma bestOption_index:
  assumes "av \<noteq> []"
  shows "\<exists>i<length av. bestOption fl av = Some (av ! i)"
proof -
  from assms obtain x xs where av: "av = x # xs" by (cases av) auto
  from foldl_better_index[of x xs fl] show ?thesis
    unfolding av by (simp add: bestOption_def)
qed


lemma bestOption_Nil: "bestOption fl [] = None"
  by (simp add: bestOption_def)

lemma notBest_simps [simp]:
  "isBestOption (notBest p) = False"
  "stock (notBest p) = stock p"
  "distance (notBest p) = distance p"
  "price (notBest p) = price p"
  "priceUnit (notBest p) = priceUnit p"
  "id_no (notBest p) = id_no p"
  "name (notBest p) = name p"
  "address (notBest p) = address p"
  "phone (notBest p) = phone p"
  "lat (notBest p) = lat p"
  "lon (notBest p) = lon p"
  by (simp_all add: notBest_def PharmacyDetails.defs Pharmacy.defs)

lemma unmark_notBest: "(notBest p)\<lparr>isBestOption := False\<rparr> = notBest p"
  by (simp add: notBest_def PharmacyDetails.defs Pharmacy.defs)

lemma unmark_unmarked: "\<not> isBestOption (p :: Pharmacy) \<Longrightarrow> p\<lparr>isBestOption := False\<rparr> = p"
  by simp

lemma availablePharmacies_filter:
  "availablePharmacies hav u m db =
     filter (\<lambda>p. stock p = Available) (map notBest (allPharmaciesWithDetails hav u m db))"
  by (simp add: availablePharmacies_def filter_map comp_def)

lemma set_insertBy: "set (insertBy cmp x xs) = insert x (set xs)"
  by (induction xs) auto

lemma set_sortBy: "set (sortBy cmp xs) = set xs"
  by (induction xs) (simp_all add: sortBy_def set_insertBy)

lemma length_insertBy: "length (insertBy cmp x xs) = Suc (length xs)"
  by (induction xs) auto

lemma length_sortBy: "length (sortBy cmp xs) = length xs"
  by (induction xs) (simp_all add: sortBy_def length_insertBy)



lemma numLeq_iff: "numLeq a b \<longleftrightarrow> (\<exists>x y. a = Num x \<and> b = Num y \<and> x \<le> y)"
  by (cases a; cases b) simp_all

lemma sorted_insertBy_distance:
  assumes "sorted_wrt (\<lambda>a b. numLeq (distance a) (distance b)) ys"
    and "\<forall>y\<in>set (x # ys). distance y \<noteq> NaN"
  shows "sorted_wrt (\<lambda>a b. numLeq (distance a) (distance b)) (insertBy compareDistance x ys)"
  using assms
proof (induction ys)
  case Nil
  show ?case by simp
next
  case (Cons y ys)
  from Cons.prems(2) obtain dx dy where d: "distance x = Num dx" "distance y = Num dy"
    by (cases "distance x"; cases "distance y") auto
  show ?case
  proof (cases "compareDistance x y \<le> 0")
    case True
    then have xy: "dx \<le> dy" using d by (simp add: compareDistance_def split: if_splits)
    have "\<forall>z\<in>set ys. numLeq (distance x) (distance z)"
    proof
      fix z assume "z \<in> set ys"
      with Cons.prems(1) have "numLeq (distance y) (distance z)" by simp
      with d xy show "numLeq (distance x) (distance z)" by (auto simp: numLeq_iff)
    qed
    with True Cons.prems(1) d xy show ?thesis by simp
  next
    case False
    then have yx: "dy \<le> dx" using d by (simp add: compareDistance_def split: if_splits)
    have s: "sorted_wrt (\<lambda>a b. numLeq (distance a) (distance b)) (insertBy compareDistance x ys)"
      using Cons.IH Cons.prems by simp
    from False Cons.prems(1) d yx s show ?thesis by (simp add: set_insertBy)
  qed
qed

lemma sorted_sortBy_distance:
  assumes "\<forall>y\<in>set xs. distance y \<noteq> NaN"
  shows "sorted_wrt (\<lambda>a b. numLeq (distance a) (distance b)) (sortBy compareDistance xs)"
  using assms
proof (induction xs)
  case Nil
  show ?case by (simp add: sortBy_def)
next
  case (Cons x xs)
  have s: "sorted_wrt (\<lambda>a b. numLeq (distance a) (distance b)) (sortBy compareDistance xs)"
    using Cons by simp
  have n: "\<forall>y\<in>set (x # sortBy compareDistance xs). distance y \<noteq> NaN"
    using Cons.prems by (simp add: set_sortBy)
  from sorted_insertBy_distance[OF s n] show ?case by (simp add: sortBy_def)
qed

lemma unavailablePharmacies_filter:
  "unavailablePharmacies hav u m db =
     sortBy compareDistance
       (filter (\<lambda>p. stock p \<noteq> Available) (map notBest (allPharmaciesWithDetails hav u m db)))"
  by (simp add: unavailablePharmacies_def filter_map comp_def)

lemma available_unmarked: "p \<in> set (availablePharmacies hav u m db) \<Longrightarrow> \<not> isBestOption p"
  by (auto simp: availablePharmacies_def)

lemma unavailable_unmarked: "p \<in> set (unavailablePharmacies hav u m db) \<Longrightarrow> \<not> isBestOption p"
  by (auto simp: unavailablePharmacies_def set_sortBy)


lemma unavailable_stock: "p \<in> set (unavailablePharmacies hav u m db) \<Longrightarrow> stock p \<noteq> Available"
  by (auto simp: unavailablePharmacies_def set_sortBy)

lemma markBest_None: "markBest None comb = comb"
  by (simp add: markBest_def)

lemma markBest_spec:
  assumes i: "i < length av"
  shows "\<exists>n\<le>i. markBest (Some (av ! i)) (av @ rest) =
                  (av @ rest)[n := (av ! n)\<lparr>isBestOption := True\<rparr>] \<and>
               id_no (av ! n) = id_no (av ! i) \<and>
               (\<forall>j<n. id_no (av ! j) \<noteq> id_no (av ! i))"
proof -
  let ?P = "\<lambda>p. id_no p = id_no (av ! i)"
  have "\<exists>x\<in>set av. ?P x" using i nth_mem by blast
  from findIndex_append_first[OF this, of rest]
  obtain n where n: "n < length av" "findIndex ?P (av @ rest) = Some n" "findIndex ?P av = Some n"
    by blast
  from findIndex_Some[OF n(3)] have f: "?P (av ! n)" "\<forall>j<n. \<not> ?P (av ! j)" by auto
  have "n \<le> i"
  proof (rule ccontr)
    assume "\<not> n \<le> i"
    then have "i < n" by simp
    with f(2) show False by blast
  qed
  moreover have "markBest (Some (av ! i)) (av @ rest) =
                  (av @ rest)[n := (av ! n)\<lparr>isBestOption := True\<rparr>]"
    using n(1,2) by (simp add: markBest_def nth_append)
  ultimately show ?thesis using f by blast
qed


lemma id_no_withDetails [simp]: "id_no (withDetails hav u es p) = id_no p"
  by (simp add: withDetails_def Let_def)

lemma name_withDetails [simp]: "name (withDetails hav u es p) = name p"
  by (simp add: withDetails_def Let_def)


lemma findNearby_Nil:
  assumes "availablePharmacies hav u m db = []"
  shows "findNearbyPharmacies fl hav u m db = take 15 (unavailablePharmacies hav u m db)"
  using assms by (simp add: findNearbyPharmacies_def Let_def combine_eq bestOption_Nil markBest_None)

lemma findNearby_shape:
  assumes "availablePharmacies hav u m db \<noteq> []"
  shows "\<exists>i n. i < length (availablePharmacies hav u m db) \<and> n \<le> i \<and>
      bestOption fl (availablePharmacies hav u m db) = Some (availablePharmacies hav u m db ! i) \<and>
      id_no (availablePharmacies hav u m db ! n) = id_no (availablePharmacies hav u m db ! i) \<and>
      (\<forall>j<n. id_no (availablePharmacies hav u m db ! j) \<noteq> id_no (availablePharmacies hav u m db ! i)) \<and>
      findNearbyPharmacies fl hav u m db =
        (availablePharmacies hav u m db @
           take (15 - length (availablePharmacies hav u m db)) (unavailablePharmacies hav u m db))
        [n := (availablePharmacies hav u m db ! n)\<lparr>isBestOption := True\<rparr>]"
proof -
  let ?av = "availablePharmacies hav u m db"
  let ?un = "unavailablePharmacies hav u m db"
  from bestOption_index[OF assms, of fl] obtain i where i: "i < length ?av"
    "bestOption fl ?av = Some (?av ! i)"
    by blast
  from markBest_spec[OF i(1), of "take (15 - length ?av) ?un"] obtain n where n: "n \<le> i"
    "markBest (Some (?av ! i)) (?av @ take (15 - length ?av) ?un) =
       (?av @ take (15 - length ?av) ?un)[n := (?av ! n)\<lparr>isBestOption := True\<rparr>]"
    "id_no (?av ! n) = id_no (?av ! i)" "\<forall>j<n. id_no (?av ! j) \<noteq> id_no (?av ! i)"
    by blast
  have "findNearbyPharmacies fl hav u m db =
        (?av @ take (15 - length ?av) ?un)[n := (?av ! n)\<lparr>isBestOption := True\<rparr>]"
    using i(2) n(2) by (simp add: findNearbyPharmacies_def Let_def combine_eq)
  with i n show ?thesis by blast
qed

lemma sorted_wrt_take_drop:
  assumes "sorted_wrt R xs"
  shows "\<forall>x\<in>set (take j xs). \<forall>y\<in>set (drop j xs). R x y"
proof -
  have "sorted_wrt R (take j xs @ drop j xs)" using assms by simp
  then show ?thesis unfolding sorted_wrt_append by blast
qed

lemma length_partition:
  "length (availablePharmacies hav u m db) + length (unavailablePharmacies hav u m db)
     = length (allPharmacies db)"
proof -
  have "length (availablePharmacies hav u m db) + length (unavailablePharmacies hav u m db)
        = length (allPharmaciesWithDetails hav u m db)"
    by (simp add: availablePharmacies_def unavailablePharmacies_def length_sortBy
          sum_length_filter_compl)
  then show ?thesis by (simp add: allPharmaciesWithDetails_def)
qed

lemma unmark_marked_list:
  assumes "\<forall>p\<in>set xs. \<not> isBestOption p"
  shows "map (\<lambda>p. p\<lparr>isBestOption := False\<rparr>) (xs[n := (xs ! n)\<lparr>isBestOption := True\<rparr>]) = xs"
proof (rule nth_equalityI)
  show "length (map (\<lambda>p. p\<lparr>isBestOption := False\<rparr>) (xs[n := (xs ! n)\<lparr>isBestOption := True\<rparr>])) = length xs"
    by simp
next
  fix i assume "i < length (map (\<lambda>p. p\<lparr>isBestOption := False\<rparr>) (xs[n := (xs ! n)\<lparr>isBestOption := True\<rparr>]))"
  then have i: "i < length xs" by simp
  then have "\<not> isBestOption (xs ! i)" using assms nth_mem by blast
  then show "map (\<lambda>p. p\<lparr>isBestOption := False\<rparr>) (xs[n := (xs ! n)\<lparr>isBestOption := True\<rparr>]) ! i = xs ! i"
    using i by (cases "i = n") (simp_all add: unmark_unmarked)
qed

lemma combined_unmarked:
  "\<forall>p\<in>set (availablePharmacies hav u m db @
             take k (unavailablePharmacies hav u m db)). \<not> isBestOption p"
  using available_unmarked unavailable_unmarked by (auto dest: in_set_takeD)

lemma findNearby_unmarked:
  "map (\<lambda>p. p\<lparr>isBestOption := False\<rparr>) (findNearbyPharmacies fl hav u m db) =
     availablePharmacies hav u m db @
       take (15 - length (availablePharmacies hav u m db)) (unavailablePharmacies hav u m db)"
proof (cases "availablePharmacies hav u m db = []")
  case True
  have "map (\<lambda>p. p\<lparr>isBestOption := False\<rparr>) (take 15 (unavailablePharmacies hav u m db)) =
        take 15 (unavailablePharmacies hav u m db)"
    using unavailable_unmarked by (intro map_idI) (auto dest: in_set_takeD)
  with True show ?thesis by (simp add: findNearby_Nil)
next
  case False
  let ?av = "availablePharmacies hav u m db"
  let ?comb = "?av @ take (15 - length ?av) (unavailablePharmacies hav u m db)"
  from findNearby_shape[OF False, of fl] obtain i n where n: "i < length ?av" "n \<le> i"
    "findNearbyPharmacies fl hav u m db = ?comb[n := (?av ! n)\<lparr>isBestOption := True\<rparr>]"
    by blast
  then have "?comb ! n = ?av ! n" by (simp add: nth_append)
  with n(3) have "findNearbyPharmacies fl hav u m db = ?comb[n := (?comb ! n)\<lparr>isBestOption := True\<rparr>]"
    by simp
  then show ?thesis
    using unmark_marked_list[OF combined_unmarked, of hav u m db "15 - length ?av" n] by simp
qed

lemma findNearby_drop:
  "drop (length (availablePharmacies hav u m db)) (findNearbyPharmacies fl hav u m db) =
     take (15 - length (availablePharmacies hav u m db)) (unavailablePharmacies hav u m db)"
proof (cases "availablePharmacies hav u m db = []")
  case True
  then show ?thesis by (simp add: findNearby_Nil)
next
  case False
  let ?av = "availablePharmacies hav u m db"
  from findNearby_shape[OF False, of fl] obtain i n where n: "i < length ?av" "n \<le> i"
    "findNearbyPharmacies fl hav u m db =
       (?av @ take (15 - length ?av) (unavailablePharmacies hav u m db))
         [n := (?av ! n)\<lparr>isBestOption := True\<rparr>]"
    by blast
  then have "n < length ?av" by simp
  then show ?thesis unfolding n(3) by (simp add: drop_update_cancel)
qed

lemma map_of_rev_last:
  "map_of (rev (map (\<lambda>e. (f e, g e)) es)) k =
     (if k \<in> f ` set es then Some (g (last (filter (\<lambda>e. f e = k) es))) else None)"
  by (induction es rule: rev_induct) auto

lemma last_filter_in:
  assumes "k \<in> f ` set es"
  shows "last (filter (\<lambda>e. f e = k) es) \<in> set es \<and> f (last (filter (\<lambda>e. f e = k) es)) = k"
proof -
  from assms have ne: "filter (\<lambda>e. f e = k) es \<noteq> []" by (auto simp: filter_empty_conv)
  from last_in_set[OF ne] show ?thesis by auto
qed

lemma distinct_key_unique:
  assumes "distinct (map f es)" "e \<in> set es" "e' \<in> set es" "f e = f e'"
  shows "e = e'"
  using assms by (meson distinct_map inj_onD)

lemma toFixed1_Num:
  "\<exists>n::int. toFixed1 (Num x) = Num (of_int n / 10) \<and> \<bar>of_int n / 10 - x\<bar> \<le> 1 / 20"
proof (cases "x < 0")
  case True
  have "\<bar>of_int (round (- x * 10)) - (- x * 10)\<bar> \<le> 1 / 2" by (rule of_int_round_abs_le)
  then have "\<bar>of_int (- round (- x * 10)) / 10 - x\<bar> \<le> 1 / 20"
    by (simp add: abs_if split: if_splits)
  moreover have "toFixed1 (Num x) = Num (of_int (- round (- x * 10)) / 10)"
    using True by simp
  ultimately show ?thesis by blast
next
  case False
  have "\<bar>of_int (round (x * 10)) - x * 10\<bar> \<le> 1 / 2" by (rule of_int_round_abs_le)
  then have "\<bar>of_int (round (x * 10)) / 10 - x\<bar> \<le> 1 / 20"
    by (simp add: abs_if split: if_splits)
  moreover have "toFixed1 (Num x) = Num (of_int (round (x * 10)) / 10)"
    using False by simp
  ultimately show ?thesis by blast
qed

lemma toFixed1_NaN_iff: "toFixed1 x = NaN \<longleftrightarrow> x = NaN"
  by (cases x) simp_all

lemma lookup_defined:
  "k \<in> f ` set es \<Longrightarrow> map_of (rev (map (\<lambda>e. (f e, g e)) es)) k \<noteq> None"
  by (simp add: map_of_rev_last)

lemma haversineDistance_same: "haversineDistance a a = 0"
  by (simp add: haversineDistance_def atan2_def)

lemma withDetails_fields:
  "id_no (withDetails hav u es p) = id_no p"
  "name (withDetails hav u es p) = name p"
  "address (withDetails hav u es p) = address p"
  "phone (withDetails hav u es p) = phone p"
  "lat (withDetails hav u es p) = lat p"
  "lon (withDetails hav u es p) = lon p"
  "distance (withDetails hav u es p) = toFixed1 (hav u (Location.truncate p))"
  by (simp_all add: withDetails_def Let_def)

lemma withDetails_entry:
  assumes "id_no p \<in> pharmacyId ` set es"
  shows "price (withDetails hav u es p) = entryPrice (last (filter (\<lambda>e. pharmacyId e = id_no p) es))"
    and "stock (withDetails hav u es p) = entryStock (last (filter (\<lambda>e. pharmacyId e = id_no p) es))"
    and "priceUnit (withDetails hav u es p) = ''per strip''"
  using assms by (simp_all add: withDetails_def Let_def map_of_rev_last)

lemma withDetails_no_entry:
  assumes "id_no p \<notin> pharmacyId ` set es"
  shows "price (withDetails hav u es p) = 0"
    and "stock (withDetails hav u es p) = Unavailable"
    and "priceUnit (withDetails hav u es p) = ''-''"
  using assms by (simp_all add: withDetails_def Let_def)

lemma findNearby_origin:
  assumes "r \<in> set (findNearbyPharmacies fl hav u m db)"
  shows "\<exists>p\<in>set (allPharmacies db).
           r\<lparr>isBestOption := False\<rparr> = notBest (withDetails hav u (pharmaciesWithStock m db) p)"
proof -
  let ?un = "\<lambda>p::Pharmacy. p\<lparr>isBestOption := False\<rparr>"
  from assms have "?un r \<in> set (map ?un (findNearbyPharmacies fl hav u m db))" by simp
  then have "?un r \<in> set (availablePharmacies hav u m db) \<union>
                       set (unavailablePharmacies hav u m db)"
    unfolding findNearby_unmarked by (auto dest: in_set_takeD)
  then have "?un r \<in> notBest ` set (allPharmaciesWithDetails hav u m db)"
    by (auto simp: availablePharmacies_def unavailablePharmacies_def set_sortBy)
  then show ?thesis by (auto simp: allPharmaciesWithDetails_def)
qed











lemma available_included:
  assumes "p \<in> set (allPharmacies db)"
    and "stock (withDetails hav u (pharmaciesWithStock m db) p) = Available"
  shows "\<exists>r\<in>set (findNearbyPharmacies fl hav u m db).
           r\<lparr>isBestOption := False\<rparr> = notBest (withDetails hav u (pharmaciesWithStock m db) p)"
proof -
  let ?w = "notBest (withDetails hav u (pharmaciesWithStock m db) p)"
  from assms have "?w \<in> set (availablePharmacies hav u m db)"
    by (auto simp: availablePharmacies_def allPharmaciesWithDetails_def)
  then have "?w \<in> set (map (\<lambda>p. p\<lparr>isBestOption := False\<rparr>) (findNearbyPharmacies fl hav u m db))"
    unfolding findNearby_unmarked by simp
  then show ?thesis by auto
qed

subsection \<open>The engine on the example data\<close>

lemmas findNearby_defs =
  findNearbyPharmacies_def availablePharmacies_def unavailablePharmacies_def
  allPharmaciesWithDetails_def pharmaciesWithStock_def collection_def withDetails_def
  allPharmacies_dynamic combine_def MAX_RESULTS_def bestOption_def markBest_def better_def
  score_def compareDistance_def sortBy_def notBest_def PharmacyDetails.defs Pharmacy.defs
  Location.defs BasePharmacy.defs exampleDistance_def exampleUser_def exampleRound_def Let_def

lemma findNearby_exampleDb:
  "findNearbyPharmacies exampleRound exampleDistance exampleUser ''Dolo'' exampleDb =
     [\<lparr>lat = 2, lon = 0, id_no = 1001, name = ''Apollo'', address = ''MG Road'', phone = ''0801'',
       distance = Num 2, price = 50, priceUnit = ''per strip'', stock = Available,
       isBestOption = True\<rparr>,
      \<lparr>lat = 1, lon = 0, id_no = 1002, name = ''MedPlus'', address = ''HSR'', phone = ''0802'',
       distance = Num 1, price = 65, priceUnit = ''per strip'', stock = Available,
       isBestOption = False\<rparr>,
      \<lparr>lat = 1/2, lon = 0, id_no = 1003, name = ''Wellness'', address = ''BTM'', phone = ''0803'',
       distance = Num (1/2), price = 0, priceUnit = ''-'', stock = Unavailable,
       isBestOption = False\<rparr>]"
  by (simp add: findNearby_defs exampleDb_def exampleIndex_def exampleEntries_def lower_Dolo)



lemma findNearby_antipodeDb:
  "findNearbyPharmacies exampleRound antipodeDistance antipodeUser ''Dolo'' antipodeDb =
     [\<lparr>lat = 12, lon = 78, id_no = 1001, name = ''East'', address = ''A'', phone = ''0801'',
       distance = Num (1088 / 10), price = 0, priceUnit = ''-'', stock = Unavailable,
       isBestOption = False\<rparr>,
      \<lparr>lat = - 12, lon = - 103, id_no = 1002, name = ''Antipode'', address = ''B'', phone = ''0802'',
       distance = NaN, price = 0, priceUnit = ''-'', stock = Unavailable,
       isBestOption = False\<rparr>,
      \<lparr>lat = 12, lon = 771 / 10, id_no = 1003, name = ''Near'', address = ''C'', phone = ''0803'',
       distance = Num (109 / 10), price = 0, priceUnit = ''-'', stock = Unavailable,
       isBestOption = False\<rparr>]"
  by (simp add: findNearby_defs antipodeDb_def antipodeDistance_def antipodeUser_def lower_Dolo
        round_def)



lemma unavailable_capDb:
  "map distance (unavailablePharmacies exampleDistance exampleUser ''Zzyyxx'' capDb) =
     map Num [1, 2, 3, 4, 5, 6, 7, 8, 9, 10, 11, 12, 13, 14, 15, 16, 17, 18, 19, 20]"
  by (simp add: findNearby_defs capDb_def lower_Zzyyxx)

lemma findNearby_capDb:
  "map distance (findNearbyPharmacies exampleRound exampleDistance exampleUser ''Zzyyxx'' capDb) =
     map Num [1, 2, 3, 4, 5, 6, 7, 8, 9, 10, 11, 12, 13, 14, 15]"
  by (simp add: findNearby_defs capDb_def lower_Zzyyxx)

lemma length_available_stockedDb:
  "length (availablePharmacies exampleDistance exampleUser ''Dolo'' stockedDb) = 20"
  by (simp add: findNearby_defs stockedDb_def capDb_def lower_Dolo)

lemma length_unavailable_stockedDb:
  "length (unavailablePharmacies exampleDistance exampleUser ''Dolo'' stockedDb) = 0"
  by (simp add: findNearby_defs stockedDb_def capDb_def lower_Dolo)


lemma findNearby_unknown_exampleDb:
  "map stock (findNearbyPharmacies exampleRound exampleDistance exampleUser ''Zzyyxx'' exampleDb) =
     [Unavailable, Unavailable, Unavailable]"
  by (simp add: findNearby_defs exampleDb_def exampleIndex_def lower_Zzyyxx)

subsection \<open>All available entries, then the others\<close>

text \<open>
  The shape of every result of \<open>findNearbyPharmacies\<close>, for every database, query,
  distance function and rounding. The result has \<open>max k (min 15 (k + length other))\<close>
  entries, where \<open>k\<close> is the number of available pharmacies. It starts with the entries of
  all available pharmacies of the registry, in the order of the registry (only the
  best-option flag of one of them is set afterwards), so every available pharmacy of the
  registry has its entry in the result. The rest is the first \<open>15 - k\<close> entries of the
  sorted list of the others, which has the same entries as the list before sorting. When
  no distance among the others is \<open>NaN\<close>, the sorted list is in ascending order of rounded
  distance and no entry left out is nearer than one that is included.
\<close>

lemma findNearby_available_then_others:
  fixes fl hav u m db
  defines "av \<equiv> availablePharmacies hav u m db"
    and "un \<equiv> unavailablePharmacies hav u m db"
    and "res \<equiv> findNearbyPharmacies fl hav u m db"
    and "details \<equiv> map (withDetails hav u (pharmaciesWithStock m db)) (allPharmacies db)"
  shows "length res = max (length av) (min 15 (length av + length un)) \<and>
         av = map notBest (filter (\<lambda>p. stock p = Available) details) \<and>
         map (\<lambda>p. p\<lparr>isBestOption := False\<rparr>) (take (length av) res) = av \<and>
         (\<forall>p\<in>set (allPharmacies db).
            stock (withDetails hav u (pharmaciesWithStock m db) p) = Available \<longrightarrow>
            (\<exists>r\<in>set res. r\<lparr>isBestOption := False\<rparr> =
                           notBest (withDetails hav u (pharmaciesWithStock m db) p))) \<and>
         drop (length av) res = take (15 - length av) un \<and>
         set un = set (map notBest (filter (\<lambda>p. stock p \<noteq> Available) details)) \<and>
         length un = length (filter (\<lambda>p. stock p \<noteq> Available) details) \<and>
         length av + length un = length (allPharmacies db) \<and>
         ((\<forall>p\<in>set un. distance p \<noteq> NaN) \<longrightarrow>
            sorted_wrt (\<lambda>a b. numLeq (distance a) (distance b)) un \<and>
            (\<forall>x\<in>set (drop (length av) res). \<forall>y\<in>set (drop (15 - length av) un).
               numLeq (distance x) (distance y)))"
proof -
  have um: "map (\<lambda>p. p\<lparr>isBestOption := False\<rparr>) res = av @ take (15 - length av) un"
    unfolding av_def un_def res_def by (rule findNearby_unmarked)
  have dr: "drop (length av) res = take (15 - length av) un"
    unfolding av_def un_def res_def by (rule findNearby_drop)
  have "length res = length (map (\<lambda>p. p\<lparr>isBestOption := False\<rparr>) res)" by simp
  also have "\<dots> = length av + min (15 - length av) (length un)"
    unfolding um by (simp add: min.commute)
  also have "\<dots> = max (length av) (min 15 (length av + length un))" by arith
  finally have len: "length res = max (length av) (min 15 (length av + length un))" .
  have avd: "av = map notBest (filter (\<lambda>p. stock p = Available) details)"
    by (simp add: av_def details_def availablePharmacies_def allPharmaciesWithDetails_def)
  have "map (\<lambda>p. p\<lparr>isBestOption := False\<rparr>) (take (length av) res) =
        take (length av) (map (\<lambda>p. p\<lparr>isBestOption := False\<rparr>) res)"
    by (simp add: take_map)
  then have tk: "map (\<lambda>p. p\<lparr>isBestOption := False\<rparr>) (take (length av) res) = av"
    unfolding um by simp
  have inc: "\<forall>p\<in>set (allPharmacies db).
            stock (withDetails hav u (pharmaciesWithStock m db) p) = Available \<longrightarrow>
            (\<exists>r\<in>set res. r\<lparr>isBestOption := False\<rparr> =
                           notBest (withDetails hav u (pharmaciesWithStock m db) p))"
    unfolding res_def using available_included by blast
  have und: "un = sortBy compareDistance
                    (map notBest (filter (\<lambda>p. stock p \<noteq> Available) details))"
    by (simp add: un_def details_def unavailablePharmacies_def allPharmaciesWithDetails_def)
  have su: "set un = set (map notBest (filter (\<lambda>p. stock p \<noteq> Available) details))"
    unfolding und by (rule set_sortBy)
  have lu: "length un = length (filter (\<lambda>p. stock p \<noteq> Available) details)"
    unfolding und by (simp add: length_sortBy)
  have part: "length av + length un = length (allPharmacies db)"
    unfolding av_def un_def by (rule length_partition)
  have ord: "(\<forall>p\<in>set un. distance p \<noteq> NaN) \<longrightarrow>
            sorted_wrt (\<lambda>a b. numLeq (distance a) (distance b)) un \<and>
            (\<forall>x\<in>set (drop (length av) res). \<forall>y\<in>set (drop (15 - length av) un).
               numLeq (distance x) (distance y))"
  proof
    assume fin: "\<forall>p\<in>set un. distance p \<noteq> NaN"
    then have "\<forall>p\<in>set (map notBest (filter (\<lambda>p. stock p \<noteq> Available) details)).
                 distance p \<noteq> NaN"
      unfolding su .
    from sorted_sortBy_distance[OF this]
    have srt: "sorted_wrt (\<lambda>a b. numLeq (distance a) (distance b)) un"
      unfolding und .
    from sorted_wrt_take_drop[OF srt, of "15 - length av"]
    show "sorted_wrt (\<lambda>a b. numLeq (distance a) (distance b)) un \<and>
            (\<forall>x\<in>set (drop (length av) res). \<forall>y\<in>set (drop (15 - length av) un).
               numLeq (distance x) (distance y))"
      unfolding dr using srt by blast
  qed
  from len avd tk inc dr su lu part ord show ?thesis by blast
qed

text \<open>The cap on the example data: none available and twenty others at distances 1 to 20
  give the fifteen nearest in ascending order; twenty available ones are all returned.\<close>

lemma findNearby_cap_examples:
  "map distance (findNearbyPharmacies exampleRound exampleDistance exampleUser ''Zzyyxx'' capDb) =
     map Num [1, 2, 3, 4, 5, 6, 7, 8, 9, 10, 11, 12, 13, 14, 15] \<and>
   length (availablePharmacies exampleDistance exampleUser ''Dolo'' stockedDb) = 20 \<and>
   length (findNearbyPharmacies exampleRound exampleDistance exampleUser ''Dolo'' stockedDb) = 20"
  using conjunct1[OF findNearby_available_then_others[of exampleRound exampleDistance exampleUser
        "''Dolo''" stockedDb]]
  by (simp add: findNearby_capDb length_available_stockedDb length_unavailable_stockedDb)

lemma lower_East: "toLowerCase ''East'' = ''east''" by code_simp
lemma lower_Antipode: "toLowerCase ''Antipode'' = ''antipode''" by code_simp
lemma lower_Near: "toLowerCase ''Near'' = ''near''" by code_simp

lemma antipodeDb_registered:
  "antipodeDb =
     fst (registerOrGetPharmacy \<lparr>ownerName = ''Near'', ownerPhone = ''0803'', ownerAddress = ''C''\<rparr>
            \<lparr>lat = 12, lon = 771 / 10\<rparr>
       (fst (registerOrGetPharmacy
               \<lparr>ownerName = ''Antipode'', ownerPhone = ''0802'', ownerAddress = ''B''\<rparr>
               \<lparr>lat = - 12, lon = - 103\<rparr>
          (fst (registerOrGetPharmacy
                  \<lparr>ownerName = ''East'', ownerPhone = ''0801'', ownerAddress = ''A''\<rparr>
                  \<lparr>lat = 12, lon = 78\<rparr> emptyDb)))))"
  by (simp add: registerOrGetPharmacy_def allPharmacies_dynamic emptyDb_def antipodeDb_def Let_def
        lower_East lower_Antipode lower_Near)

lemma antipodeDb_reachable: "reachable antipodeDb"
  unfolding antipodeDb_registered by (intro reachable.register reachable.init)

text \<open>
  Claim C1. The claim asks that the pharmacies without available stock follow the
  available ones in ascending order of rounded distance. Three pharmacies are registered
  through \<open>registerOrGetPharmacy\<close>, the second at the antipode of the user, where
  \<open>haversineDistance\<close> returns \<open>NaN\<close> in double arithmetic. None has stock, so the result
  is the sorted list of all three. Each neighbour of the \<open>NaN\<close> entry compares with it as
  \<open>NaN\<close>, that is as equal, so the list counts as sorted already and \<open>sort\<close> moves nothing:
  the pharmacy at 108.8 km stays in front of the one at 10.9 km.
\<close>

theorem findNearby_unsorted_at_antipode:
  "reachable antipodeDb \<and>
   availablePharmacies antipodeDistance antipodeUser ''Dolo'' antipodeDb = [] \<and>
   map name (findNearbyPharmacies exampleRound antipodeDistance antipodeUser ''Dolo'' antipodeDb)
     = [''East'', ''Antipode'', ''Near''] \<and>
   map distance (findNearbyPharmacies exampleRound antipodeDistance antipodeUser ''Dolo'' antipodeDb)
     = [Num (1088 / 10), NaN, Num (109 / 10)] \<and>
   jsLess (distance (findNearbyPharmacies exampleRound antipodeDistance antipodeUser ''Dolo''
                       antipodeDb ! 2))
          (distance (findNearbyPharmacies exampleRound antipodeDistance antipodeUser ''Dolo''
                       antipodeDb ! 0))"
proof -
  have a: "availablePharmacies antipodeDistance antipodeUser ''Dolo'' antipodeDb = []"
    by (simp add: findNearby_defs antipodeDb_def lower_Dolo)
  show ?thesis
    unfolding findNearby_antipodeDb a using antipodeDb_reachable by simp
qed

subsection \<open>The best option\<close>




subsection \<open>Price, unit, stock and distance of an entry\<close>

text \<open>
  Claim C8. Every entry of a result of \<open>findNearbyPharmacies\<close> comes from a pharmacy of
  the registry and keeps its stored fields; its distance is the distance to the user
  rounded to one decimal (a whole number of tenths, at most 0.05 away; \<open>NaN\<close> when the
  distance is \<open>NaN\<close>). When the queried medicine's collection has an entry of the pharmacy,
  the entry of the result has the unit \<open>per strip\<close> and the price and stock of that entry
  of the collection (the last one, should the collection have several; the only one when
  the collection has one entry for each pharmacy). Otherwise it has price 0, unit \<open>-\<close> and
  stock \<open>Unavailable\<close>; this is so for every entry when the medicine key is unknown.
\<close>

theorem findNearby_entry_details:
  "(\<forall>r\<in>set (findNearbyPharmacies fl hav u m db). \<exists>p\<in>set (allPharmacies db).
      id_no r = id_no p \<and> name r = name p \<and> address r = address p \<and> phone r = phone p \<and>
      lat r = lat p \<and> lon r = lon p \<and>
      distance r = toFixed1 (hav u (Location.truncate p)) \<and>
      (hav u (Location.truncate p) = NaN \<longrightarrow> distance r = NaN) \<and>
      (\<forall>x. hav u (Location.truncate p) = Num x \<longrightarrow>
         (\<exists>n::int. distance r = Num (of_int n / 10) \<and> \<bar>of_int n / 10 - x\<bar> \<le> 1 / 20)) \<and>
      (id_no p \<in> pharmacyId ` set (pharmaciesWithStock m db) \<longrightarrow>
         priceUnit r = ''per strip'' \<and>
         last (filter (\<lambda>e. pharmacyId e = id_no p) (pharmaciesWithStock m db))
           \<in> set (pharmaciesWithStock m db) \<and>
         price r = entryPrice (last (filter (\<lambda>e. pharmacyId e = id_no p) (pharmaciesWithStock m db))) \<and>
         stock r = entryStock (last (filter (\<lambda>e. pharmacyId e = id_no p) (pharmaciesWithStock m db))) \<and>
         (distinct (map pharmacyId (pharmaciesWithStock m db)) \<longrightarrow>
            (\<forall>e\<in>set (pharmaciesWithStock m db). pharmacyId e = id_no p \<longrightarrow>
               price r = entryPrice e \<and> stock r = entryStock e))) \<and>
      (id_no p \<notin> pharmacyId ` set (pharmaciesWithStock m db) \<longrightarrow>
         price r = 0 \<and> priceUnit r = ''-'' \<and> stock r = Unavailable)) \<and>
   (globalInventory db (toLowerCase m) = None \<longrightarrow>
      (\<forall>r\<in>set (findNearbyPharmacies fl hav u m db).
         price r = 0 \<and> priceUnit r = ''-'' \<and> stock r = Unavailable))"
proof -
  let ?es = "pharmaciesWithStock m db"
  have main: "\<exists>p\<in>set (allPharmacies db).
      id_no r = id_no p \<and> name r = name p \<and> address r = address p \<and> phone r = phone p \<and>
      lat r = lat p \<and> lon r = lon p \<and>
      distance r = toFixed1 (hav u (Location.truncate p)) \<and>
      (hav u (Location.truncate p) = NaN \<longrightarrow> distance r = NaN) \<and>
      (\<forall>x. hav u (Location.truncate p) = Num x \<longrightarrow>
         (\<exists>n::int. distance r = Num (of_int n / 10) \<and> \<bar>of_int n / 10 - x\<bar> \<le> 1 / 20)) \<and>
      (id_no p \<in> pharmacyId ` set ?es \<longrightarrow>
         priceUnit r = ''per strip'' \<and>
         last (filter (\<lambda>e. pharmacyId e = id_no p) ?es) \<in> set ?es \<and>
         price r = entryPrice (last (filter (\<lambda>e. pharmacyId e = id_no p) ?es)) \<and>
         stock r = entryStock (last (filter (\<lambda>e. pharmacyId e = id_no p) ?es)) \<and>
         (distinct (map pharmacyId ?es) \<longrightarrow>
            (\<forall>e\<in>set ?es. pharmacyId e = id_no p \<longrightarrow>
               price r = entryPrice e \<and> stock r = entryStock e))) \<and>
      (id_no p \<notin> pharmacyId ` set ?es \<longrightarrow>
         price r = 0 \<and> priceUnit r = ''-'' \<and> stock r = Unavailable)"
    if r: "r \<in> set (findNearbyPharmacies fl hav u m db)" for r
  proof -
    from findNearby_origin[OF r] obtain p where p: "p \<in> set (allPharmacies db)"
      "r\<lparr>isBestOption := False\<rparr> = notBest (withDetails hav u ?es p)"
      by blast
    let ?w = "withDetails hav u ?es p"
    have f: "id_no r = id_no ?w" "name r = name ?w" "address r = address ?w" "phone r = phone ?w"
      "lat r = lat ?w" "lon r = lon ?w" "distance r = distance ?w" "price r = price ?w"
      "priceUnit r = priceUnit ?w" "stock r = stock ?w"
      using arg_cong[OF p(2), of id_no] arg_cong[OF p(2), of name] arg_cong[OF p(2), of address]
        arg_cong[OF p(2), of phone] arg_cong[OF p(2), of lat] arg_cong[OF p(2), of lon]
        arg_cong[OF p(2), of distance] arg_cong[OF p(2), of price]
        arg_cong[OF p(2), of priceUnit] arg_cong[OF p(2), of stock]
      by simp_all
    have base: "id_no r = id_no p \<and> name r = name p \<and> address r = address p \<and> phone r = phone p \<and>
      lat r = lat p \<and> lon r = lon p \<and> distance r = toFixed1 (hav u (Location.truncate p))"
      using f by (simp add: withDetails_fields)
    then have d: "distance r = toFixed1 (hav u (Location.truncate p))" by simp
    have tenth: "hav u (Location.truncate p) = NaN \<longrightarrow> distance r = NaN"
      unfolding d by simp
    have close: "\<forall>x. hav u (Location.truncate p) = Num x \<longrightarrow>
         (\<exists>n::int. distance r = Num (of_int n / 10) \<and> \<bar>of_int n / 10 - x\<bar> \<le> 1 / 20)"
    proof (intro allI impI)
      fix x assume "hav u (Location.truncate p) = Num x"
      then have "distance r = toFixed1 (Num x)" using d by simp
      with toFixed1_Num[of x]
      show "\<exists>n::int. distance r = Num (of_int n / 10) \<and> \<bar>of_int n / 10 - x\<bar> \<le> 1 / 20"
        by simp
    qed
    have hit: "id_no p \<in> pharmacyId ` set ?es \<longrightarrow>
         priceUnit r = ''per strip'' \<and>
         last (filter (\<lambda>e. pharmacyId e = id_no p) ?es) \<in> set ?es \<and>
         price r = entryPrice (last (filter (\<lambda>e. pharmacyId e = id_no p) ?es)) \<and>
         stock r = entryStock (last (filter (\<lambda>e. pharmacyId e = id_no p) ?es)) \<and>
         (distinct (map pharmacyId ?es) \<longrightarrow>
            (\<forall>e\<in>set ?es. pharmacyId e = id_no p \<longrightarrow>
               price r = entryPrice e \<and> stock r = entryStock e))"
    proof
      assume h: "id_no p \<in> pharmacyId ` set ?es"
      note l = last_filter_in[OF h]
      note w = withDetails_entry[OF h, of hav u]
      have uniq: "distinct (map pharmacyId ?es) \<longrightarrow>
            (\<forall>e\<in>set ?es. pharmacyId e = id_no p \<longrightarrow>
               price r = entryPrice e \<and> stock r = entryStock e)"
      proof (intro impI ballI)
        fix e assume dd: "distinct (map pharmacyId ?es)" and e: "e \<in> set ?es" "pharmacyId e = id_no p"
        from distinct_key_unique[OF dd e(1) conjunct1[OF l]] e(2) l
        have "e = last (filter (\<lambda>e. pharmacyId e = id_no p) ?es)" by simp
        then show "price r = entryPrice e \<and> stock r = entryStock e"
          using f(8,10) w(1,2) by simp
      qed
      show "priceUnit r = ''per strip'' \<and>
         last (filter (\<lambda>e. pharmacyId e = id_no p) ?es) \<in> set ?es \<and>
         price r = entryPrice (last (filter (\<lambda>e. pharmacyId e = id_no p) ?es)) \<and>
         stock r = entryStock (last (filter (\<lambda>e. pharmacyId e = id_no p) ?es)) \<and>
         (distinct (map pharmacyId ?es) \<longrightarrow>
            (\<forall>e\<in>set ?es. pharmacyId e = id_no p \<longrightarrow>
               price r = entryPrice e \<and> stock r = entryStock e))"
        using f(8,9,10) w l uniq by simp
    qed
    have miss: "id_no p \<notin> pharmacyId ` set ?es \<longrightarrow>
         price r = 0 \<and> priceUnit r = ''-'' \<and> stock r = Unavailable"
      using f(8,9,10) withDetails_no_entry[of p ?es hav u] by simp
    from p(1) base tenth close hit miss show ?thesis by blast
  qed
  have unknown: "globalInventory db (toLowerCase m) = None \<longrightarrow>
      (\<forall>r\<in>set (findNearbyPharmacies fl hav u m db).
         price r = 0 \<and> priceUnit r = ''-'' \<and> stock r = Unavailable)"
  proof (intro impI ballI)
    fix r assume n: "globalInventory db (toLowerCase m) = None"
      and r: "r \<in> set (findNearbyPharmacies fl hav u m db)"
    from n have e: "?es = []" by (simp add: pharmaciesWithStock_def collection_def)
    from main[OF r] show "price r = 0 \<and> priceUnit r = ''-'' \<and> stock r = Unavailable"
      unfolding e by auto
  qed
  from main unknown show ?thesis by blast
qed

theorem findNearby_entry_details_witness:
  "findNearbyPharmacies exampleRound exampleDistance exampleUser ''Dolo'' exampleDb ! 0
     \<in> set (findNearbyPharmacies exampleRound exampleDistance exampleUser ''Dolo'' exampleDb) \<and>
   distinct (map pharmacyId (pharmaciesWithStock ''Dolo'' exampleDb)) \<and>
   price (findNearbyPharmacies exampleRound exampleDistance exampleUser ''Dolo'' exampleDb ! 0) = 50 \<and>
   stock (findNearbyPharmacies exampleRound exampleDistance exampleUser ''Dolo'' exampleDb ! 0) = Available \<and>
   priceUnit (findNearbyPharmacies exampleRound exampleDistance exampleUser ''Dolo'' exampleDb ! 0) = ''per strip'' \<and>
   price (findNearbyPharmacies exampleRound exampleDistance exampleUser ''Dolo'' exampleDb ! 2) = 0 \<and>
   priceUnit (findNearbyPharmacies exampleRound exampleDistance exampleUser ''Dolo'' exampleDb ! 2) = ''-'' \<and>
   stock (findNearbyPharmacies exampleRound exampleDistance exampleUser ''Dolo'' exampleDb ! 2) = Unavailable \<and>
   globalInventory exampleDb (toLowerCase ''Zzyyxx'') = None \<and>
   price (findNearbyPharmacies exampleRound exampleDistance exampleUser ''Zzyyxx'' exampleDb ! 0) = 0 \<and>
   priceUnit (findNearbyPharmacies exampleRound exampleDistance exampleUser ''Zzyyxx'' exampleDb ! 0) = ''-''"
proof -
  let ?res = "findNearbyPharmacies exampleRound exampleDistance exampleUser ''Dolo'' exampleDb"
  let ?unk = "findNearbyPharmacies exampleRound exampleDistance exampleUser ''Zzyyxx'' exampleDb"
  let ?es = "pharmaciesWithStock ''Dolo'' exampleDb"
  note t = findNearby_entry_details[where fl = exampleRound and hav = exampleDistance
      and u = exampleUser and m = "''Dolo''" and db = exampleDb]
  note tz = findNearby_entry_details[where fl = exampleRound and hav = exampleDistance
      and u = exampleUser and m = "''Zzyyxx''" and db = exampleDb]
  have es: "?es = exampleEntries"
    by (simp add: pharmaciesWithStock_def collection_def exampleDb_def exampleIndex_def lower_Dolo)
  have d: "distinct (map pharmacyId ?es)" unfolding es by (simp add: exampleEntries_def)
  have m0: "?res ! 0 \<in> set ?res" and m2: "?res ! 2 \<in> set ?res"
    by (simp_all add: findNearby_exampleDb)
  have id0: "id_no (?res ! 0) = 1001" and id2: "id_no (?res ! 2) = 1003"
    by (simp_all add: findNearby_exampleDb)
  from bspec[OF conjunct1[OF t] m0]
  have r0: "price (?res ! 0) = 50 \<and> stock (?res ! 0) = Available \<and>
            priceUnit (?res ! 0) = ''per strip''"
  proof (elim bexE conjE)
    fix p
    assume p: "id_no (?res ! 0) = id_no p"
      "id_no p \<in> pharmacyId ` set ?es \<longrightarrow>
       priceUnit (?res ! 0) = ''per strip'' \<and>
       last (filter (\<lambda>e. pharmacyId e = id_no p) ?es) \<in> set ?es \<and>
       price (?res ! 0) = entryPrice (last (filter (\<lambda>e. pharmacyId e = id_no p) ?es)) \<and>
       stock (?res ! 0) = entryStock (last (filter (\<lambda>e. pharmacyId e = id_no p) ?es)) \<and>
       (distinct (map pharmacyId ?es) \<longrightarrow>
          (\<forall>e\<in>set ?es. pharmacyId e = id_no p \<longrightarrow>
             price (?res ! 0) = entryPrice e \<and> stock (?res ! 0) = entryStock e))"
    from p(1) id0 have "id_no p = 1001" by simp
    with p(2) show ?thesis unfolding es by (simp add: exampleEntries_def)
  qed
  from bspec[OF conjunct1[OF t] m2]
  have r2: "price (?res ! 2) = 0 \<and> priceUnit (?res ! 2) = ''-'' \<and>
            stock (?res ! 2) = Unavailable"
  proof (elim bexE conjE)
    fix q
    assume q: "id_no (?res ! 2) = id_no q"
      "id_no q \<notin> pharmacyId ` set ?es \<longrightarrow>
       price (?res ! 2) = 0 \<and> priceUnit (?res ! 2) = ''-'' \<and> stock (?res ! 2) = Unavailable"
    from q(1) id2 have "id_no q = 1003" by simp
    with q(2) show ?thesis unfolding es by (simp add: exampleEntries_def)
  qed
  have n: "globalInventory exampleDb (toLowerCase ''Zzyyxx'') = None"
    by (simp add: exampleDb_def exampleIndex_def lower_Zzyyxx)
  have "length ?unk = length (map stock ?unk)" by simp
  also have "\<dots> = 3" unfolding findNearby_unknown_exampleDb by simp
  finally have "?unk ! 0 \<in> set ?unk" by (intro nth_mem) simp
  with bspec[OF mp[OF conjunct2[OF tz] n]]
  have z: "price (?unk ! 0) = 0" "priceUnit (?unk ! 0) = ''-''" by blast+
  from m0 d r0 r2 n z show ?thesis by blast
qed

subsection \<open>The registry the engine reads\<close>








end
